theory Spec2Isabelle
  imports Main
begin

section \<open>The Wayback Machine lookup adapter (server.py)\<close>

text \<open>
  The adapter exposes five tool operations. Each one builds one to three HTTP GET
  requests, reads the answers and reshapes them into a JSON document. The model below
  follows server.py function by function. The upstream archive is a function from
  requests to outcomes, every operation returns the list of requests it issued together
  with either the exception it raised or its result, and Python's dynamic errors
  (KeyError, IndexError, TypeError, AttributeError) are values.
\<close>

subsection \<open>Strings\<close>

text \<open>
  Python strings are sequences of code points; here they are lists of 8-bit characters,
  so the model covers the Latin-1 range, in which the decimal digits are exactly
  \<open>0\<close> to \<open>9\<close>.
\<close>

definition ljust :: "nat \<Rightarrow> char \<Rightarrow> string \<Rightarrow> string" where
  \<comment> \<open>\<open>s.ljust(n, c)\<close>: pad on the right up to width n, never shorten.\<close>
  "ljust n c s = s @ replicate (n - length s) c"

definition digit_val :: "char \<Rightarrow> nat option" where
  "digit_val c = map_of
     [(CHR ''0'', 0), (CHR ''1'', 1), (CHR ''2'', 2), (CHR ''3'', 3), (CHR ''4'', 4),
      (CHR ''5'', 5), (CHR ''6'', 6), (CHR ''7'', 7), (CHR ''8'', 8), (CHR ''9'', 9)] c"

definition is_digit :: "char \<Rightarrow> bool" where
  "is_digit c = (digit_val c \<noteq> None)"

definition digit_char :: "nat \<Rightarrow> char" where
  "digit_char d = ''0123456789'' ! (d mod 10)"

fun nat_of_digits :: "nat \<Rightarrow> string \<Rightarrow> nat" where
  \<comment> \<open>\<open>int(s)\<close> on a captured group; a leading blank (day of month) is skipped.\<close>
  "nat_of_digits acc [] = acc"
| "nat_of_digits acc (c # cs) =
     (case digit_val c of
        None \<Rightarrow> nat_of_digits acc cs
      | Some d \<Rightarrow> nat_of_digits (10 * acc + d) cs)"

fun show_nat :: "nat \<Rightarrow> string" where
  "show_nat n = (if n < 10 then [digit_char n] else show_nat (n div 10) @ [digit_char n])"

definition show_int :: "int \<Rightarrow> string" where
  "show_int i = (if i < 0 then CHR ''-'' # show_nat (nat (- i)) else show_nat (nat i))"

definition zpad :: "nat \<Rightarrow> string \<Rightarrow> string" where
  \<comment> \<open>zero padding on the left, as \<open>%02d\<close> does\<close>
  "zpad w s = replicate (w - length s) (CHR ''0'') @ s"

fun find_split :: "string \<Rightarrow> string \<Rightarrow> (string \<times> string) option" where
  \<comment> \<open>the text before and after the leftmost occurrence of \<open>sep\<close>\<close>
  "find_split sep [] = (if sep = [] then Some ([], []) else None)"
| "find_split sep (c # cs) =
     (if take (length sep) (c # cs) = sep then Some ([], drop (length sep) (c # cs))
      else map_option (\<lambda>(a, b). (c # a, b)) (find_split sep cs))"

definition contains :: "string \<Rightarrow> string \<Rightarrow> bool" where
  \<comment> \<open>\<open>sep in s\<close>\<close>
  "contains sep s = (find_split sep s \<noteq> None)"

definition split1 :: "string \<Rightarrow> string \<Rightarrow> string list" where
  \<comment> \<open>\<open>s.split(sep, 1)\<close> for a non-empty separator: one piece, or two\<close>
  "split1 sep s = (case find_split sep s of None \<Rightarrow> [s] | Some (a, b) \<Rightarrow> [a, b])"

subsection \<open>Timestamps\<close>

text \<open>
  \<open>datetime.strptime(s, "%Y%m%d%H%M%S")\<close> turns the format into a regular expression,
  one group per directive, takes the first match in the order of the alternatives, and
  rejects the input when text remains after the match or when the fields are not a date.
  The groups of CPython are
  \<open>%Y: \d\d\d\d\<close>, \<open>%m: 1[0-2]|0[1-9]|[1-9]\<close>, \<open>%d: 3[0-1]|[1-2]\d|0[1-9]|[1-9]| [1-9]\<close>,
  \<open>%H: 2[0-3]|[0-1]\d|\d\<close>, \<open>%M: [0-5]\d|\d\<close>, \<open>%S: 6[0-1]|[0-5]\d|\d\<close>.
  Every failure is a ValueError, which \<open>_format_timestamp\<close> catches, so failure is
  \<open>None\<close> here.
\<close>

type_synonym cclass = "char list"

fun match_alt :: "cclass list \<Rightarrow> string \<Rightarrow> (string \<times> string) option" where
  "match_alt [] s = Some ([], s)"
| "match_alt (p # ps) [] = None"
| "match_alt (p # ps) (c # cs) =
     (if c \<in> set p then map_option (\<lambda>(m, r). (c # m, r)) (match_alt ps cs) else None)"

fun first_some :: "('a \<Rightarrow> 'b option) \<Rightarrow> 'a list \<Rightarrow> 'b option" where
  "first_some f [] = None"
| "first_some f (x # xs) = (case f x of None \<Rightarrow> first_some f xs | Some y \<Rightarrow> Some y)"

fun match_fields :: "cclass list list list \<Rightarrow> string \<Rightarrow> (string list \<times> string) option" where
  "match_fields [] s = Some ([], s)"
| "match_fields (alts # fs) s =
     first_some
       (\<lambda>alt. case match_alt alt s of
                None \<Rightarrow> None
              | Some (m, r) \<Rightarrow> map_option (\<lambda>(ms, r'). (m # ms, r')) (match_fields fs r))
       alts"

definition D :: cclass where "D = ''0123456789''"

definition re_Y :: "cclass list list" where "re_Y = [[D, D, D, D]]"
definition re_m :: "cclass list list" where
  "re_m = [[''1'', ''012''], [''0'', ''123456789''], [''123456789'']]"
definition re_d :: "cclass list list" where
  "re_d = [[''3'', ''01''], [''12'', D], [''0'', ''123456789''], [''123456789''],
           ['' '', ''123456789'']]"
definition re_H :: "cclass list list" where
  "re_H = [[''2'', ''0123''], [''01'', D], [D]]"
definition re_M :: "cclass list list" where
  "re_M = [[''012345'', D], [D]]"
definition re_S :: "cclass list list" where
  "re_S = [[''6'', ''01''], [''012345'', D], [D]]"

record datetime =
  year :: nat
  month :: nat
  day :: nat
  hour :: nat
  minute :: nat
  second :: nat

definition is_leap :: "nat \<Rightarrow> bool" where
  "is_leap y = (y mod 4 = 0 \<and> (y mod 100 \<noteq> 0 \<or> y mod 400 = 0))"

definition days_in_month :: "nat \<Rightarrow> nat \<Rightarrow> nat" where
  "days_in_month y m =
     (if m = 2 then (if is_leap y then 29 else 28)
      else if m = 4 \<or> m = 6 \<or> m = 9 \<or> m = 11 then 30 else 31)"

definition valid_datetime :: "datetime \<Rightarrow> bool" where
  \<comment> \<open>the range checks of the \<open>date\<close> and \<open>datetime\<close> constructors\<close>
  "valid_datetime dt =
     (1 \<le> year dt \<and> year dt \<le> 9999 \<and> 1 \<le> month dt \<and> month dt \<le> 12 \<and>
      1 \<le> day dt \<and> day dt \<le> days_in_month (year dt) (month dt) \<and>
      hour dt \<le> 23 \<and> minute dt \<le> 59 \<and> second dt \<le> 59)"

definition strptime :: "string \<Rightarrow> datetime option" where
  "strptime s =
     (case match_fields [re_Y, re_m, re_d, re_H, re_M, re_S] s of
        Some ([y, m, d, hh, mm, ss], []) \<Rightarrow>
          (let dt = \<lparr>year = nat_of_digits 0 y, month = nat_of_digits 0 m,
                     day = nat_of_digits 0 d, hour = nat_of_digits 0 hh,
                     minute = nat_of_digits 0 mm, second = nat_of_digits 0 ss\<rparr>
           in if valid_datetime dt then Some dt else None)
      | _ \<Rightarrow> None)"

definition strftime :: "datetime \<Rightarrow> string" where
  \<comment> \<open>\<open>dt.strftime("%Y-%m-%d %H:%M:%S UTC")\<close>; \<open>%Y\<close> is the year as the C library
      prints it, which on Linux (glibc) is without padding: year 999 gives \<open>999\<close>\<close>
  "strftime dt =
     show_nat (year dt) @ ''-'' @ zpad 2 (show_nat (month dt)) @ ''-'' @
     zpad 2 (show_nat (day dt)) @ '' '' @ zpad 2 (show_nat (hour dt)) @ '':'' @
     zpad 2 (show_nat (minute dt)) @ '':'' @ zpad 2 (show_nat (second dt)) @ '' UTC''"

definition format_timestamp :: "string \<Rightarrow> string" where
  \<comment> \<open>\<open>_format_timestamp\<close>: the name \<open>ts\<close> is rebound to the padded string before the
      parse, and the handler returns \<open>ts\<close>\<close>
  "format_timestamp ts0 =
     (let ts = ljust 14 (CHR ''0'') ts0
      in case strptime (take 14 ts) of
           Some dt \<Rightarrow> strftime dt
         | None \<Rightarrow> ts)"

subsection \<open>Exceptions and JSON values\<close>

datatype exn_class =
  KeyError | IndexError | TypeError | AttributeError | JSONDecodeError
  | HTTPStatusError | TransportError

text \<open>An exception is its class and the text \<open>str(e)\<close> gives for it.\<close>

datatype py_exception = Raise exn_class string

fun exn_str :: "py_exception \<Rightarrow> string" where
  "exn_str (Raise c m) = m"

text \<open>
  What \<open>response.json()\<close> can return. Numbers are the integers; a Python \<open>dict\<close> is
  the list of its items in insertion order.
\<close>

datatype json =
  JNull | JBool bool | JNum int | JStr string | JArr "json list"
  | JObj "(string \<times> json) list"

fun py_truthy :: "json \<Rightarrow> bool" where
  "py_truthy JNull = False"
| "py_truthy (JBool b) = b"
| "py_truthy (JNum n) = (n \<noteq> 0)"
| "py_truthy (JStr s) = (s \<noteq> [])"
| "py_truthy (JArr xs) = (xs \<noteq> [])"
| "py_truthy (JObj kvs) = (kvs \<noteq> [])"

fun type_name :: "json \<Rightarrow> string" where
  "type_name JNull = ''NoneType''"
| "type_name (JBool b) = ''bool''"
| "type_name (JNum n) = ''int''"
| "type_name (JStr s) = ''str''"
| "type_name (JArr xs) = ''list''"
| "type_name (JObj kvs) = ''dict''"

definition sq :: string where "sq = [CHR 0x27]"

definition key_error :: "string \<Rightarrow> py_exception" where
  \<comment> \<open>\<open>str(KeyError(k))\<close> is the key in quotes\<close>
  "key_error k = Raise KeyError (sq @ k @ sq)"

definition no_attribute :: "json \<Rightarrow> string \<Rightarrow> py_exception" where
  "no_attribute v a =
     Raise AttributeError
       (sq @ type_name v @ sq @ '' object has no attribute '' @ sq @ a @ sq)"

definition not_subscriptable :: "json \<Rightarrow> py_exception" where
  "not_subscriptable v =
     Raise TypeError (sq @ type_name v @ sq @ '' object is not subscriptable'')"

fun py_len :: "json \<Rightarrow> py_exception + nat" where
  "py_len (JStr s) = Inr (length s)"
| "py_len (JArr xs) = Inr (length xs)"
| "py_len (JObj kvs) = Inr (length kvs)"
| "py_len v =
     Inl (Raise TypeError (''object of type '' @ sq @ type_name v @ sq @ '' has no len()''))"

fun py_get :: "json \<Rightarrow> string \<Rightarrow> json \<Rightarrow> py_exception + json" where
  \<comment> \<open>\<open>v.get(k, default)\<close>: only a dict has the method\<close>
  "py_get (JObj kvs) k dflt = Inr (case map_of kvs k of None \<Rightarrow> dflt | Some v \<Rightarrow> v)"
| "py_get v k dflt = Inl (no_attribute v ''get'')"

fun py_getitem :: "json \<Rightarrow> string \<Rightarrow> py_exception + json" where
  \<comment> \<open>\<open>v[k]\<close> with a string key\<close>
  "py_getitem (JObj kvs) k = (case map_of kvs k of None \<Rightarrow> Inl (key_error k) | Some v \<Rightarrow> Inr v)"
| "py_getitem (JArr xs) k =
     Inl (Raise TypeError ''list indices must be integers or slices, not str'')"
| "py_getitem (JStr s) k =
     Inl (Raise TypeError (''string indices must be integers, not '' @ sq @ ''str'' @ sq))"
| "py_getitem v k = Inl (not_subscriptable v)"

fun py_index :: "json \<Rightarrow> nat \<Rightarrow> py_exception + json" where
  \<comment> \<open>\<open>v[i]\<close> with a literal index \<open>i \<ge> 0\<close>; the keys of a dict are strings, so an
      integer is never one of them\<close>
  "py_index (JArr xs) i =
     (if i < length xs then Inr (xs ! i)
      else Inl (Raise IndexError ''list index out of range''))"
| "py_index (JStr s) i =
     (if i < length s then Inr (JStr [s ! i])
      else Inl (Raise IndexError ''string index out of range''))"
| "py_index (JObj kvs) i = Inl (Raise KeyError (show_nat i))"
| "py_index v i = Inl (not_subscriptable v)"

subsection \<open>Rendering values in an f-string\<close>

definition hex2 :: "nat \<Rightarrow> string" where
  "hex2 n = [''0123456789abcdef'' ! (n div 16 mod 16), ''0123456789abcdef'' ! (n mod 16)]"

definition repr_char :: "char \<Rightarrow> char \<Rightarrow> string" where
  "repr_char q c =
     (let n = (of_char c :: nat) in
      if c = CHR 0x5C then [CHR 0x5C, CHR 0x5C]
      else if c = q then [CHR 0x5C, q]
      else if n = 9 then [CHR 0x5C, CHR ''t'']
      else if n = 10 then [CHR 0x5C, CHR ''n'']
      else if n = 13 then [CHR 0x5C, CHR ''r'']
      else if n < 32 \<or> (127 \<le> n \<and> n \<le> 160) \<or> n = 173 then [CHR 0x5C, CHR ''x''] @ hex2 n
      else [c])"

definition repr_str :: "string \<Rightarrow> string" where
  \<comment> \<open>\<open>repr(s)\<close>: double quotes only when s has a single quote and no double quote\<close>
  "repr_str s =
     (let q = (if CHR 0x27 \<in> set s \<and> CHR 0x22 \<notin> set s then CHR 0x22 else CHR 0x27)
      in q # concat (map (repr_char q) s) @ [q])"

fun join :: "string \<Rightarrow> string list \<Rightarrow> string" where
  "join sep [] = []"
| "join sep [x] = x"
| "join sep (x # y # ys) = x @ sep @ join sep (y # ys)"

fun py_repr :: "json \<Rightarrow> string" where
  "py_repr JNull = ''None''"
| "py_repr (JBool b) = (if b then ''True'' else ''False'')"
| "py_repr (JNum n) = show_int n"
| "py_repr (JStr s) = repr_str s"
| "py_repr (JArr xs) = ''['' @ join '', '' (map py_repr xs) @ '']''"
| "py_repr (JObj kvs) =
     ''{'' @ join '', '' (map (\<lambda>kv. repr_str (fst kv) @ '': '' @ py_repr (snd kv)) kvs) @ ''}''"

fun py_str :: "json \<Rightarrow> string" where
  \<comment> \<open>\<open>str(v)\<close>, which \<open>f"{v}"\<close> inserts\<close>
  "py_str (JStr s) = s"
| "py_str v = py_repr v"

fun format_timestamp_val :: "json \<Rightarrow> json" where
  \<comment> \<open>\<open>_format_timestamp\<close> on any value: on a non-string \<open>ts.ljust\<close> raises
      AttributeError inside the \<open>try\<close>, and the handler returns \<open>ts\<close>\<close>
  "format_timestamp_val (JStr s) = JStr (format_timestamp s)"
| "format_timestamp_val v = v"

subsection \<open>Requests, responses and the upstream archive\<close>

datatype pval = PStr string | PInt int

record request =
  endpoint :: string
  params :: "(string \<times> pval) list"
  timeout :: nat
  follow_redirects :: bool
  headers :: "(string \<times> string) list"

text \<open>
  A response carries its status, the message httpx gives the HTTPStatusError of
  \<open>raise_for_status\<close> for it, its decoded text, and what \<open>json()\<close> makes of the body:
  the value, or the decoder's message when it raises.
\<close>

record response =
  status_code :: nat
  status_error :: string
  body_text :: string
  json_body :: "string + json"

datatype http_outcome =
  Failed string  \<comment> \<open>no response: connection error or timeout, with its message\<close>
  | Answered response

type_synonym upstream = "request \<Rightarrow> http_outcome"

definition WAYBACK_AVAILABILITY_API :: string where
  "WAYBACK_AVAILABILITY_API = ''http://archive.org/wayback/available''"

definition WAYBACK_CDX_API :: string where
  "WAYBACK_CDX_API = ''https://web.archive.org/cdx/search/cdx''"

definition WAYBACK_BASE_URL :: string where
  "WAYBACK_BASE_URL = ''https://web.archive.org/web''"

definition client_get :: "upstream \<Rightarrow> request \<Rightarrow> py_exception + response" where
  "client_get up rq =
     (case up rq of Failed m \<Rightarrow> Inl (Raise TransportError m) | Answered r \<Rightarrow> Inr r)"

definition raise_for_status :: "response \<Rightarrow> py_exception + response" where
  \<comment> \<open>httpx raises unless the status is 2xx\<close>
  "raise_for_status r =
     (if 200 \<le> status_code r \<and> status_code r \<le> 299 then Inr r
      else Inl (Raise HTTPStatusError (status_error r)))"

definition response_json :: "response \<Rightarrow> py_exception + json" where
  "response_json r =
     (case json_body r of Inl m \<Rightarrow> Inl (Raise JSONDecodeError m) | Inr j \<Rightarrow> Inr j)"

definition fetch_json :: "upstream \<Rightarrow> request \<Rightarrow> py_exception + json" where
  \<comment> \<open>\<open>client.get(...)\<close>, \<open>response.raise_for_status()\<close>, \<open>response.json()\<close>\<close>
  "fetch_json up rq =
     (case client_get up rq of
        Inl e \<Rightarrow> Inl e
      | Inr r \<Rightarrow> (case raise_for_status r of Inl e \<Rightarrow> Inl e | Inr r' \<Rightarrow> response_json r'))"

subsection \<open>Tool arguments and results\<close>

text \<open>
  The argument dict, with each value typed as the tool's input schema declares it. A
  missing key is \<open>None\<close>: \<open>args["k"]\<close> then raises KeyError and \<open>args.get("k", d)\<close>
  gives \<open>d\<close>.
\<close>

record arguments =
  a_url :: "string option"
  a_timestamp :: "string option"
  a_from_date :: "string option"
  a_to_date :: "string option"
  a_limit :: "int option"
  a_status_code :: "string option"
  a_snapshot_url :: "string option"
  a_raw :: "bool option"

text \<open>
  A result is one text block and the error flag. \<open>JsonText j\<close> is the text
  \<open>json.dumps(j, indent=2)\<close>.
\<close>

datatype content = Text string | JsonText json

record tool_result =
  content :: content
  isError :: bool

definition ok_result :: "json \<Rightarrow> tool_result" where
  \<comment> \<open>\<open>CallToolResult(content=[TextContent(type="text", text=json.dumps(j, indent=2))])\<close>\<close>
  "ok_result j = \<lparr>content = JsonText j, isError = False\<rparr>"

definition error_result :: "string \<Rightarrow> tool_result" where
  "error_result t = \<lparr>content = Text t, isError = True\<rparr>"

type_synonym outcome = "request list \<times> (py_exception + tool_result)"

subsection \<open>get_latest_snapshot and get_snapshot_at_date\<close>

definition availability_request :: "(string \<times> pval) list \<Rightarrow> request" where
  "availability_request ps =
     \<lparr>endpoint = WAYBACK_AVAILABILITY_API, params = ps, timeout = 30,
      follow_redirects = False, headers = []\<rparr>"

definition closest_of :: "json \<Rightarrow> py_exception + json" where
  \<comment> \<open>\<open>data.get("archived_snapshots", {}).get("closest")\<close>\<close>
  "closest_of data =
     (case py_get data ''archived_snapshots'' (JObj []) of
        Inl e \<Rightarrow> Inl e
      | Inr snapshots \<Rightarrow> py_get snapshots ''closest'' JNull)"

definition not_available :: "json \<Rightarrow> py_exception + bool" where
  \<comment> \<open>\<open>not closest or not closest.get("available")\<close>\<close>
  "not_available closest =
     (if \<not> py_truthy closest then Inr True
      else case py_get closest ''available'' JNull of
             Inl e \<Rightarrow> Inl e
           | Inr a \<Rightarrow> Inr (\<not> py_truthy a))"

definition latest_result :: "string \<Rightarrow> json \<Rightarrow> py_exception + json" where
  "latest_result url data =
     (case closest_of data of
        Inl e \<Rightarrow> Inl e
      | Inr closest \<Rightarrow>
     (case not_available closest of
        Inl e \<Rightarrow> Inl e
      | Inr True \<Rightarrow>
          Inr (JObj [(''available'', JBool False), (''url'', JStr url),
                     (''message'', JStr ''No snapshots found for this URL'')])
      | Inr False \<Rightarrow>
     (case py_getitem closest ''timestamp'' of
        Inl e \<Rightarrow> Inl e
      | Inr timestamp \<Rightarrow>
     (case py_getitem closest ''url'' of
        Inl e \<Rightarrow> Inl e
      | Inr snap \<Rightarrow>
     (case py_get closest ''status'' (JStr ''unknown'') of
        Inl e \<Rightarrow> Inl e
      | Inr st \<Rightarrow>
          Inr (JObj [(''available'', JBool True), (''original_url'', JStr url),
                     (''snapshot_url'', snap), (''timestamp'', timestamp),
                     (''formatted_time'', format_timestamp_val timestamp),
                     (''status'', st)]))))))"

definition get_latest_snapshot :: "upstream \<Rightarrow> arguments \<Rightarrow> outcome" where
  "get_latest_snapshot up args =
     (case a_url args of
        None \<Rightarrow> ([], Inl (key_error ''url''))
      | Some url \<Rightarrow>
          (let rq = availability_request [(''url'', PStr url)]
           in ([rq],
               case fetch_json up rq of
                 Inl e \<Rightarrow> Inl e
               | Inr data \<Rightarrow> map_sum id ok_result (latest_result url data))))"

definition at_date_result :: "string \<Rightarrow> string \<Rightarrow> json \<Rightarrow> py_exception + json" where
  "at_date_result url timestamp data =
     (case closest_of data of
        Inl e \<Rightarrow> Inl e
      | Inr closest \<Rightarrow>
     (case not_available closest of
        Inl e \<Rightarrow> Inl e
      | Inr True \<Rightarrow>
          Inr (JObj [(''available'', JBool False), (''url'', JStr url),
                     (''requested_timestamp'', JStr timestamp),
                     (''message'', JStr ''No snapshots found near this date'')])
      | Inr False \<Rightarrow>
     (case py_getitem closest ''timestamp'' of
        Inl e \<Rightarrow> Inl e
      | Inr snap_timestamp \<Rightarrow>
     (case py_getitem closest ''url'' of
        Inl e \<Rightarrow> Inl e
      | Inr snap \<Rightarrow>
     (case py_get closest ''status'' (JStr ''unknown'') of
        Inl e \<Rightarrow> Inl e
      | Inr st \<Rightarrow>
          Inr (JObj [(''available'', JBool True), (''original_url'', JStr url),
                     (''requested_timestamp'', JStr timestamp),
                     (''snapshot_url'', snap), (''actual_timestamp'', snap_timestamp),
                     (''actual_formatted_time'', format_timestamp_val snap_timestamp),
                     (''status'', st)]))))))"

definition get_snapshot_at_date :: "upstream \<Rightarrow> arguments \<Rightarrow> outcome" where
  "get_snapshot_at_date up args =
     (case a_url args of
        None \<Rightarrow> ([], Inl (key_error ''url''))
      | Some url \<Rightarrow>
     (case a_timestamp args of
        None \<Rightarrow> ([], Inl (key_error ''timestamp''))
      | Some timestamp \<Rightarrow>
          (let rq = availability_request [(''url'', PStr url), (''timestamp'', PStr timestamp)]
           in ([rq],
               case fetch_json up rq of
                 Inl e \<Rightarrow> Inl e
               | Inr data \<Rightarrow> map_sum id ok_result (at_date_result url timestamp data)))))"

subsection \<open>search_snapshots\<close>

definition cdx_request :: "(string \<times> pval) list \<Rightarrow> request" where
  "cdx_request ps =
     \<lparr>endpoint = WAYBACK_CDX_API, params = ps, timeout = 30,
      follow_redirects = False, headers = []\<rparr>"

definition search_limit :: "arguments \<Rightarrow> int" where
  \<comment> \<open>\<open>min(int(args.get("limit", 10)), 100)\<close>\<close>
  "search_limit args = min (case a_limit args of None \<Rightarrow> 10 | Some n \<Rightarrow> n) 100"

definition opt_param :: "string \<Rightarrow> string \<Rightarrow> string option \<Rightarrow> (string \<times> pval) list" where
  \<comment> \<open>\<open>if v: params[k] = prefix + v\<close> on an optional string: skipped when None or empty\<close>
  "opt_param k prefix v =
     (case v of
        None \<Rightarrow> []
      | Some s \<Rightarrow> if s = [] then [] else [(k, PStr (prefix @ s))])"

definition search_params :: "string \<Rightarrow> arguments \<Rightarrow> (string \<times> pval) list" where
  "search_params url args =
     [(''url'', PStr url), (''output'', PStr ''json''),
      (''fl'', PStr ''timestamp,original,statuscode,mimetype,length''),
      (''limit'', PInt (search_limit args))]
     @ opt_param ''from'' [] (a_from_date args)
     @ opt_param ''to'' [] (a_to_date args)
     @ opt_param ''filter'' ''statuscode:'' (a_status_code args)"

fun py_iter :: "json \<Rightarrow> py_exception + json list" where
  \<comment> \<open>the items a \<open>for\<close> loop or \<open>zip\<close> draws from a value\<close>
  "py_iter (JArr xs) = Inr xs"
| "py_iter (JStr s) = Inr (map (\<lambda>c. JStr [c]) s)"
| "py_iter (JObj kvs) = Inr (map (\<lambda>kv. JStr (fst kv)) kvs)"
| "py_iter v = Inl (Raise TypeError (sq @ type_name v @ sq @ '' object is not iterable''))"

fun py_tail :: "json \<Rightarrow> py_exception + json" where
  \<comment> \<open>the slice \<open>v[1:]\<close>\<close>
  "py_tail (JArr xs) = Inr (JArr (drop 1 xs))"
| "py_tail (JStr s) = Inr (JStr (drop 1 s))"
| "py_tail (JObj kvs) = Inl (Raise TypeError (''unhashable type: '' @ sq @ ''slice'' @ sq))"
| "py_tail v = Inl (not_subscriptable v)"

fun hashable :: "json \<Rightarrow> bool" where
  "hashable (JArr xs) = False"
| "hashable (JObj kvs) = False"
| "hashable v = True"

fun py_dict :: "(json \<times> json) list \<Rightarrow> py_exception + (json \<times> json) list" where
  \<comment> \<open>\<open>dict(pairs)\<close>: the first unhashable key raises\<close>
  "py_dict [] = Inr []"
| "py_dict ((k, v) # kvs) =
     (if hashable k then map_sum id (\<lambda>d. (k, v) # d) (py_dict kvs)
      else Inl (Raise TypeError (''unhashable type: '' @ sq @ type_name k @ sq)))"

definition entry_get :: "(json \<times> json) list \<Rightarrow> string \<Rightarrow> json" where
  \<comment> \<open>\<open>entry.get(k, "")\<close>: a later pair with the same key replaced the earlier one\<close>
  "entry_get entry k = (case map_of (rev entry) (JStr k) of None \<Rightarrow> JStr [] | Some v \<Rightarrow> v)"

definition snapshot_entry :: "json \<Rightarrow> json \<Rightarrow> py_exception + json" where
  \<comment> \<open>one turn of the loop: \<open>entry = dict(zip(headers, row))\<close> and the record appended\<close>
  "snapshot_entry hdrs row =
     (case py_iter hdrs of
        Inl e \<Rightarrow> Inl e
      | Inr hs \<Rightarrow>
     (case py_iter row of
        Inl e \<Rightarrow> Inl e
      | Inr rs \<Rightarrow>
     (case py_dict (zip hs rs) of
        Inl e \<Rightarrow> Inl e
      | Inr entry \<Rightarrow>
          (let ts = entry_get entry ''timestamp''
           in Inr (JObj
                [(''timestamp'', ts),
                 (''formatted_time'', format_timestamp_val ts),
                 (''snapshot_url'',
                    JStr (WAYBACK_BASE_URL @ ''/'' @ py_str ts @ ''/''
                          @ py_str (entry_get entry ''original''))),
                 (''original_url'', entry_get entry ''original''),
                 (''status_code'', entry_get entry ''statuscode''),
                 (''mime_type'', entry_get entry ''mimetype''),
                 (''size_bytes'', entry_get entry ''length'')])))))"

fun snapshot_loop :: "json \<Rightarrow> json list \<Rightarrow> py_exception + json list" where
  "snapshot_loop hdrs [] = Inr []"
| "snapshot_loop hdrs (row # rows) =
     (case snapshot_entry hdrs row of
        Inl e \<Rightarrow> Inl e
      | Inr s \<Rightarrow> map_sum id (\<lambda>ss. s # ss) (snapshot_loop hdrs rows))"

definition search_result :: "string \<Rightarrow> json \<Rightarrow> py_exception + json" where
  "search_result url raw =
     (case (if \<not> py_truthy raw then Inr True
            else map_sum id (\<lambda>n. n < 2) (py_len raw)) of
        Inl e \<Rightarrow> Inl e
      | Inr True \<Rightarrow>
          Inr (JObj [(''url'', JStr url), (''total_found'', JNum 0), (''snapshots'', JArr [])])
      | Inr False \<Rightarrow>
     (case py_index raw 0 of
        Inl e \<Rightarrow> Inl e
      | Inr hdrs \<Rightarrow>
     (case py_tail raw of
        Inl e \<Rightarrow> Inl e
      | Inr rows \<Rightarrow>
     (case py_iter rows of
        Inl e \<Rightarrow> Inl e
      | Inr rs \<Rightarrow>
     (case snapshot_loop hdrs rs of
        Inl e \<Rightarrow> Inl e
      | Inr snapshots \<Rightarrow>
          Inr (JObj [(''url'', JStr url), (''total_found'', JNum (int (length snapshots))),
                     (''snapshots'', JArr snapshots)]))))))"

definition search_snapshots :: "upstream \<Rightarrow> arguments \<Rightarrow> outcome" where
  "search_snapshots up args =
     (case a_url args of
        None \<Rightarrow> ([], Inl (key_error ''url''))
      | Some url \<Rightarrow>
          (let rq = cdx_request (search_params url args)
           in ([rq],
               case fetch_json up rq of
                 Inl e \<Rightarrow> Inl e
               | Inr raw \<Rightarrow> map_sum id ok_result (search_result url raw))))"

subsection \<open>get_snapshot_content\<close>

definition raw_url :: "bool \<Rightarrow> string \<Rightarrow> string" where
  \<comment> \<open>the rewrite for raw mode; \<open>parts\<close> has two items whenever \<open>/web/\<close> occurs\<close>
  "raw_url raw snapshot_url =
     (if raw \<and> contains ''/web/'' snapshot_url then
        (let parts = split1 ''/web/'' snapshot_url;
             ts_and_url = split1 ''/'' (parts ! 1)
         in if length ts_and_url = 2
            then parts ! 0 @ ''/web/'' @ ts_and_url ! 0 @ ''id_/'' @ ts_and_url ! 1
            else snapshot_url)
      else snapshot_url)"

definition content_request :: "string \<Rightarrow> request" where
  "content_request u =
     \<lparr>endpoint = u, params = [], timeout = 60, follow_redirects = True,
      headers = [(''User-Agent'', ''wayback-machine-mcp/1.0'')]\<rparr>"

definition MAX_CHARS :: nat where
  "MAX_CHARS = 50000"

definition content_result :: "string \<Rightarrow> string \<Rightarrow> json" where
  "content_result snapshot_url content0 =
     (let truncated = (length content0 > MAX_CHARS);
          content = (if truncated then take MAX_CHARS content0 else content0)
      in JObj [(''snapshot_url'', JStr snapshot_url),
               (''content_length'', JNum (int (length content))),
               (''truncated'', JBool truncated),
               (''content'', JStr content)])"

definition get_snapshot_content :: "upstream \<Rightarrow> arguments \<Rightarrow> outcome" where
  "get_snapshot_content up args =
     (case a_snapshot_url args of
        None \<Rightarrow> ([], Inl (key_error ''snapshot_url''))
      | Some snapshot_url0 \<Rightarrow>
          (let raw = (case a_raw args of None \<Rightarrow> False | Some b \<Rightarrow> b);
               snapshot_url = raw_url raw snapshot_url0;
               rq = content_request snapshot_url
           in ([rq],
               case client_get up rq of
                 Inl e \<Rightarrow> Inl e
               | Inr r \<Rightarrow>
              (case raise_for_status r of
                 Inl e \<Rightarrow> Inl e
               | Inr r' \<Rightarrow> Inr (ok_result (content_result snapshot_url (body_text r')))))))"

subsection \<open>check_url_availability\<close>

definition count_request :: "string \<Rightarrow> request" where
  "count_request url =
     cdx_request [(''url'', PStr url), (''output'', PStr ''json''), (''fl'', PStr ''timestamp''),
                  (''limit'', PInt 1), (''showNumPages'', PStr ''true'')]"

definition first_request :: "string \<Rightarrow> request" where
  "first_request url =
     cdx_request [(''url'', PStr url), (''output'', PStr ''json''),
                  (''fl'', PStr ''timestamp,statuscode''), (''limit'', PInt 1)]"

definition last_request :: "string \<Rightarrow> request" where
  "last_request url =
     cdx_request [(''url'', PStr url), (''output'', PStr ''json''),
                  (''fl'', PStr ''timestamp,statuscode''), (''limit'', PInt 1),
                  (''fastLatest'', PStr ''true'')]"

definition data_of :: "response \<Rightarrow> py_exception + json" where
  \<comment> \<open>\<open>response.json() if response.status_code == 200 else []\<close>\<close>
  "data_of r = (if status_code r = 200 then response_json r else Inr (JArr []))"

definition snapshot_of :: "json \<Rightarrow> py_exception + json" where
  \<comment> \<open>the \<open>if data and len(data) > 1:\<close> block; \<open>JNull\<close> is the initial \<open>None\<close>\<close>
  "snapshot_of data =
     (case (if \<not> py_truthy data then Inr False
            else map_sum id (\<lambda>n. n > 1) (py_len data)) of
        Inl e \<Rightarrow> Inl e
      | Inr False \<Rightarrow> Inr JNull
      | Inr True \<Rightarrow>
     (case py_index data 1 of
        Inl e \<Rightarrow> Inl e
      | Inr row \<Rightarrow>
     (case py_index row 0 of
        Inl e \<Rightarrow> Inl e
      | Inr ts \<Rightarrow>
          Inr (JObj [(''timestamp'', ts), (''formatted_time'', format_timestamp_val ts)]))))"

definition availability_result :: "string \<Rightarrow> response \<Rightarrow> response \<Rightarrow> py_exception + json" where
  "availability_result url first_response last_response =
     (case data_of first_response of
        Inl e \<Rightarrow> Inl e
      | Inr first_data \<Rightarrow>
     (case data_of last_response of
        Inl e \<Rightarrow> Inl e
      | Inr last_data \<Rightarrow>
     (case snapshot_of first_data of
        Inl e \<Rightarrow> Inl e
      | Inr first_snapshot \<Rightarrow>
     (case snapshot_of last_data of
        Inl e \<Rightarrow> Inl e
      | Inr last_snapshot \<Rightarrow>
          Inr (JObj [(''url'', JStr url),
                     (''is_archived'', JBool (first_snapshot \<noteq> JNull)),
                     (''first_snapshot'', first_snapshot),
                     (''latest_snapshot'', last_snapshot),
                     (''wayback_url'', JStr (''https://web.archive.org/web/*/'' @ url))])))))"

definition check_url_availability :: "upstream \<Rightarrow> arguments \<Rightarrow> outcome" where
  "check_url_availability up args =
     (case a_url args of
        None \<Rightarrow> ([], Inl (key_error ''url''))
      | Some url \<Rightarrow>
     (case client_get up (count_request url) of
        Inl e \<Rightarrow> ([count_request url], Inl e)
      | Inr count_response \<Rightarrow>
     (case client_get up (first_request url) of
        Inl e \<Rightarrow> ([count_request url, first_request url], Inl e)
      | Inr first_response \<Rightarrow>
     (case client_get up (last_request url) of
        Inl e \<Rightarrow> ([count_request url, first_request url, last_request url], Inl e)
      | Inr last_response \<Rightarrow>
          ([count_request url, first_request url, last_request url],
           map_sum id ok_result (availability_result url first_response last_response))))))"

subsection \<open>call_tool\<close>

definition catch :: "outcome \<Rightarrow> request list \<times> tool_result" where
  \<comment> \<open>the \<open>try ... except Exception as e\<close> around the dispatch\<close>
  "catch out =
     (fst out,
      case snd out of
        Inl e \<Rightarrow> error_result (''Error: '' @ exn_str e)
      | Inr r \<Rightarrow> r)"

definition call_tool :: "upstream \<Rightarrow> string \<Rightarrow> arguments \<Rightarrow> request list \<times> tool_result" where
  "call_tool up name args =
     (if name = ''get_latest_snapshot'' then catch (get_latest_snapshot up args)
      else if name = ''get_snapshot_at_date'' then catch (get_snapshot_at_date up args)
      else if name = ''search_snapshots'' then catch (search_snapshots up args)
      else if name = ''get_snapshot_content'' then catch (get_snapshot_content up args)
      else if name = ''check_url_availability'' then catch (check_url_availability up args)
      else ([], error_result (''Unknown tool: '' @ name)))"

subsection \<open>Reading results, and sample inputs\<close>

definition field_of :: "json \<Rightarrow> string \<Rightarrow> json option" where
  \<comment> \<open>a field of a result document\<close>
  "field_of j k = (case j of JObj kvs \<Rightarrow> map_of kvs k | _ \<Rightarrow> None)"

definition limit_sent :: "request \<Rightarrow> pval option" where
  \<comment> \<open>the \<open>limit\<close> query parameter of a request\<close>
  "limit_sent rq = map_of (params rq) ''limit''"

definition no_arguments :: arguments where
  "no_arguments =
     \<lparr>a_url = None, a_timestamp = None, a_from_date = None, a_to_date = None,
      a_limit = None, a_status_code = None, a_snapshot_url = None, a_raw = None\<rparr>"

definition upstream_down :: upstream where
  \<comment> \<open>no request gets a response\<close>
  "upstream_down rq = Failed ''connection refused''"

definition page_answer :: "string \<Rightarrow> upstream" where
  \<comment> \<open>every request gets status 200 and this page, which is not JSON\<close>
  "page_answer body rq =
     Answered \<lparr>status_code = 200, status_error = [], body_text = body,
               json_body = Inl ''Expecting value''\<rparr>"

definition json_answer :: "nat \<Rightarrow> json \<Rightarrow> upstream" where
  \<comment> \<open>every request gets this status and this JSON body\<close>
  "json_answer st j rq =
     Answered \<lparr>status_code = st, status_error = ''status '' @ show_nat st, body_text = [],
               json_body = Inr j\<rparr>"

definition error_page :: "nat \<Rightarrow> upstream" where
  \<comment> \<open>every request gets this status and an error page, which is not JSON\<close>
  "error_page st rq =
     Answered \<lparr>status_code = st, status_error = ''status '' @ show_nat st,
               body_text = ''<html>error</html>'', json_body = Inl ''Expecting value''\<rparr>"

definition one_capture :: json where
  \<comment> \<open>a CDX answer: the header row and one data row\<close>
  "one_capture =
     JArr [JArr [JStr ''timestamp'', JStr ''statuscode''],
           JArr [JStr ''20230101120000'', JStr ''200'']]"

definition upstream_failure :: "http_outcome \<Rightarrow> string option" where
  \<comment> \<open>the spec's UpstreamFailure, with its message: no response, or a status outside 2xx\<close>
  "upstream_failure out =
     (case out of
        Failed m \<Rightarrow> Some m
      | Answered r \<Rightarrow>
          if 200 \<le> status_code r \<and> status_code r \<le> 299 then None else Some (status_error r))"



definition cdx_header :: json where
  \<comment> \<open>the header row the CDX server sends for the \<open>fl\<close> of search_snapshots\<close>
  "cdx_header =
     JArr [JStr ''timestamp'', JStr ''original'', JStr ''statuscode'', JStr ''mimetype'',
           JStr ''length'']"

definition two_captures :: json where
  "two_captures =
     JArr [cdx_header,
           JArr [JStr ''20230101120000'', JStr ''http://example.com/'', JStr ''200'',
                 JStr ''text/html'', JStr ''1234''],
           JArr [JStr ''20230615080910'', JStr ''http://example.com/'', JStr ''301'',
                 JStr ''text/html'', JStr ''512'']]"

section \<open>Properties\<close>

subsection \<open>Splitting strings\<close>

lemma find_split_sound:
  "find_split sep s = Some (a, b) \<Longrightarrow> s = a @ sep @ b"
proof (induction s arbitrary: a)
  case Nil
  then show ?case by (simp split: if_splits)
next
  case (Cons c cs)
  show ?case
  proof (cases "take (length sep) (c # cs) = sep")
    case True
    with Cons.prems have "a = []" "b = drop (length sep) (c # cs)" by simp_all
    with True show ?thesis by (metis append_Nil append_take_drop_id)
  next
    case False
    with Cons.prems obtain a' where "find_split sep cs = Some (a', b)" "a = c # a'"
      by auto
    with Cons.IH show ?thesis by simp
  qed
qed

text \<open>
  The split is at the leftmost occurrence: when the separator does not occur in \<open>a\<close>
  followed by all but the last character of the separator, no occurrence starts inside
  \<open>a\<close>.
\<close>

lemma find_split_first:
  assumes "sep \<noteq> []" "find_split sep (a @ butlast sep) = None"
  shows "find_split sep (a @ sep @ b) = Some (a, b)"
  using assms
proof (induction a)
  case Nil
  then obtain c cs where "sep @ b = c # cs" by (cases sep) auto
  then show ?case by (metis append_Nil append_eq_conv_conj find_split.simps(2))
next
  case (Cons x a)
  have len: "length sep \<le> length (x # a @ butlast sep)" by simp
  have "take (length sep) (x # a @ sep @ b) = take (length sep) (x # a @ butlast sep)"
  proof -
    have "x # a @ sep @ b = (x # a @ butlast sep) @ ([last sep] @ b)"
      using Cons.prems(1) by simp
    then show ?thesis using len by (metis take_append diff_is_0_eq take_0 append_Nil2)
  qed
  moreover from Cons.prems(2) have "take (length sep) (x # a @ butlast sep) \<noteq> sep"
    and "find_split sep (a @ butlast sep) = None"
    by (auto split: if_splits)
  ultimately show ?case using Cons.IH Cons.prems(1) by simp
qed

lemma contains_char: "contains [c] s \<longleftrightarrow> c \<in> set s"
  by (induction s) (auto simp: contains_def)

lemma find_split_None_char: "c \<notin> set s \<Longrightarrow> find_split [c] s = None"
  using contains_char [of c s] unfolding contains_def by blast

text \<open>\<open>contains\<close> is the substring test.\<close>

lemma contains_iff: "contains sep s \<longleftrightarrow> (\<exists>a b. s = a @ sep @ b)"
proof
  assume "contains sep s"
  then obtain a b where "find_split sep s = Some (a, b)" by (auto simp: contains_def)
  then show "\<exists>a b. s = a @ sep @ b" using find_split_sound by blast
next
  assume "\<exists>a b. s = a @ sep @ b"
  then obtain a b where s: "s = a @ sep @ b" by blast
  show "contains sep s" unfolding s
  proof (induction a)
    case Nil
    show ?case
    proof (cases "sep @ b")
      case Nil
      then show ?thesis by (simp add: contains_def)
    next
      case (Cons c cs)
      then have "find_split sep (sep @ b) = Some ([], b)"
        by (metis append_eq_conv_conj find_split.simps(2))
      then show ?thesis by (simp add: contains_def)
    qed
  next
    case (Cons x a)
    then show ?case by (auto simp: contains_def)
  qed
qed

lemma find_split_at:
  assumes "sep \<noteq> []" and "\<not> contains sep (a @ butlast sep)"
  shows "find_split sep (a @ sep @ b) = Some (a, b)"
proof -
  from assms(2) have "find_split sep (a @ butlast sep) = None"
    unfolding contains_def by blast
  with assms(1) show ?thesis by (rule find_split_first)
qed

lemma find_split_web:
  assumes "\<not> contains ''/web/'' (pre @ ''/web'')"
  shows "find_split ''/web/'' (pre @ ''/web/'' @ rest) = Some (pre, rest)"
proof (rule find_split_at)
  show "''/web/'' \<noteq> []" by simp
  from assms show "\<not> contains ''/web/'' (pre @ butlast ''/web/'')" by simp
qed

lemma find_split_slash:
  assumes "CHR ''/'' \<notin> set ts"
  shows "find_split ''/'' (ts @ ''/'' @ rest) = Some (ts, rest)"
proof (rule find_split_at)
  show "''/'' \<noteq> []" by simp
  from assms show "\<not> contains ''/'' (ts @ butlast ''/'')" by (simp add: contains_char)
qed

subsection \<open>The raw-mode rewrite of get_snapshot_content\<close>

lemma raw_url_rewrite:
  assumes "\<not> contains ''/web/'' (pre @ ''/web'')" and "CHR ''/'' \<notin> set ts"
  shows "raw_url True (pre @ ''/web/'' @ ts @ ''/'' @ orig) = pre @ ''/web/'' @ ts @ ''id_/'' @ orig"
proof -
  let ?u = "pre @ ''/web/'' @ ts @ ''/'' @ orig"
  have 1: "find_split ''/web/'' ?u = Some (pre, ts @ ''/'' @ orig)"
    using assms(1) by (rule find_split_web)
  have 2: "find_split ''/'' (ts @ ''/'' @ orig) = Some (ts, orig)"
    using assms(2) by (rule find_split_slash)
  have "contains ''/web/'' ?u" unfolding contains_def 1 by simp
  moreover have "split1 ''/web/'' ?u = [pre, ts @ ''/'' @ orig]"
    unfolding split1_def 1 by simp
  moreover have "split1 ''/'' (ts @ ''/'' @ orig) = [ts, orig]"
    unfolding split1_def 2 by simp
  ultimately show ?thesis
    unfolding raw_url_def Let_def by (simp only: nth_Cons_0 nth_Cons_Suc One_nat_def) simp
qed

lemma raw_url_no_web: "\<not> contains ''/web/'' u \<Longrightarrow> raw_url r u = u"
  by (simp add: raw_url_def)

lemma raw_url_no_slash:
  assumes "\<not> contains ''/web/'' (a @ ''/web'')" and "CHR ''/'' \<notin> set b"
  shows "raw_url r (a @ ''/web/'' @ b) = a @ ''/web/'' @ b"
proof -
  let ?u = "a @ ''/web/'' @ b"
  have 1: "find_split ''/web/'' ?u = Some (a, b)"
    using assms(1) by (rule find_split_web)
  have 2: "find_split ''/'' b = None"
    using assms(2) by (rule find_split_None_char)
  have "split1 ''/web/'' ?u = [a, b]"
    unfolding split1_def 1 by simp
  moreover have "split1 ''/'' b = [b]"
    unfolding split1_def 2 by simp
  ultimately show ?thesis
    unfolding raw_url_def Let_def by (simp only: nth_Cons_0 nth_Cons_Suc One_nat_def) simp
qed

lemma content_requests:
  "a_snapshot_url args = Some u \<Longrightarrow>
   fst (get_snapshot_content up args)
     = [content_request (raw_url (case a_raw args of None \<Rightarrow> False | Some b \<Rightarrow> b) u)]"
  by (simp add: get_snapshot_content_def Let_def)

text \<open>
  Claim C6. With \<open>raw\<close> true and a snapshot URL \<open>pre/web/ts/orig\<close>,
  get_snapshot_content issues one request, and it is the GET of the URL
  \<open>pre/web/tsid_/orig\<close>, with the client's timeout, redirect setting and header: the
  modifier \<open>id_\<close> stands right after the timestamp component. The URL is read as the
  code splits it: \<open>/web/\<close> is the first occurrence in the URL (none starts inside
  \<open>pre\<close>), and the timestamp component \<open>ts\<close> holds no slash. The witness is the
  spec's example, \<open>https://web.archive.org/web/20230101120000/https://example.com\<close>.
\<close>

theorem raw_inserts_id_modifier:
  assumes "a_snapshot_url args = Some (pre @ ''/web/'' @ ts @ ''/'' @ orig)"
    and "a_raw args = Some True"
    and "\<not> contains ''/web/'' (pre @ ''/web'')"
    and "CHR ''/'' \<notin> set ts"
  shows "fst (get_snapshot_content up args)
           = [\<lparr>endpoint = pre @ ''/web/'' @ ts @ ''id_/'' @ orig, params = [], timeout = 60,
               follow_redirects = True,
               headers = [(''User-Agent'', ''wayback-machine-mcp/1.0'')]\<rparr>]"
proof -
  have "fst (get_snapshot_content up args)
          = [content_request (pre @ ''/web/'' @ ts @ ''id_/'' @ orig)]"
    unfolding content_requests [OF assms(1)] assms(2) option.case
      raw_url_rewrite [OF assms(3,4)] ..
  then show ?thesis unfolding content_request_def .
qed

theorem raw_inserts_id_modifier_witness:
  "map endpoint
     (fst (get_snapshot_content upstream_down
             (no_arguments\<lparr>a_snapshot_url :=
                             Some ''https://web.archive.org/web/20230101120000/https://example.com'',
                           a_raw := Some True\<rparr>)))
   = [''https://web.archive.org/web/20230101120000id_/https://example.com'']"
  using raw_inserts_id_modifier
          [of "no_arguments\<lparr>a_snapshot_url :=
                          Some ''https://web.archive.org/web/20230101120000/https://example.com'',
                        a_raw := Some True\<rparr>"
              "''https://web.archive.org''" "''20230101120000''" "''https://example.com''"
              upstream_down]
  by (simp add: no_arguments_def contains_def)

text \<open>
  Claim C10. With \<open>raw\<close> true, a snapshot URL that does not contain \<open>/web/\<close>, or whose
  part after (the first) \<open>/web/\<close> holds no further slash, is fetched as it is: the one
  request of get_snapshot_content goes to the URL unchanged, and the rewrite raises
  nothing.
\<close>

theorem raw_leaves_other_urls:
  assumes "a_snapshot_url args = Some u"
    and "a_raw args = Some True"
    and "\<not> contains ''/web/'' u \<or>
         (\<exists>a b. u = a @ ''/web/'' @ b \<and> \<not> contains ''/web/'' (a @ ''/web'') \<and> CHR ''/'' \<notin> set b)"
  shows "fst (get_snapshot_content up args) = [content_request u]"
proof -
  from assms(3) have "raw_url True u = u"
    using raw_url_no_web raw_url_no_slash by blast
  then show ?thesis
    unfolding content_requests [OF assms(1)] assms(2) option.case by (simp only:)
qed

theorem raw_leaves_other_urls_witness:
  "fst (get_snapshot_content upstream_down
          (no_arguments\<lparr>a_snapshot_url := Some ''https://example.com/page'',
                        a_raw := Some True\<rparr>))
     = [content_request ''https://example.com/page'']
   \<and> fst (get_snapshot_content upstream_down
          (no_arguments\<lparr>a_snapshot_url := Some ''https://web.archive.org/web/20230101120000'',
                        a_raw := Some True\<rparr>))
     = [content_request ''https://web.archive.org/web/20230101120000'']"
proof -
  let ?a1 = "no_arguments\<lparr>a_snapshot_url := Some ''https://example.com/page'',
                          a_raw := Some True\<rparr>"
  let ?a2 = "no_arguments\<lparr>a_snapshot_url := Some ''https://web.archive.org/web/20230101120000'',
                          a_raw := Some True\<rparr>"
  have 1: "\<not> contains ''/web/'' ''https://example.com/page''"
    by (simp add: contains_def)
  have 2: "\<exists>a b. ''https://web.archive.org/web/20230101120000'' = a @ ''/web/'' @ b
             \<and> \<not> contains ''/web/'' (a @ ''/web'') \<and> CHR ''/'' \<notin> set b"
    by (rule exI [of _ "''https://web.archive.org''"], rule exI [of _ "''20230101120000''"])
       (simp add: contains_def)
  have "fst (get_snapshot_content upstream_down ?a1) = [content_request ''https://example.com/page'']"
    by (rule raw_leaves_other_urls [OF _ _ disjI1 [OF 1]]) simp_all
  moreover
  have "fst (get_snapshot_content upstream_down ?a2)
          = [content_request ''https://web.archive.org/web/20230101120000'']"
    by (rule raw_leaves_other_urls [OF _ _ disjI2 [OF 2]]) simp_all
  ultimately show ?thesis by (rule conjI)
qed

subsection \<open>Truncation in get_snapshot_content\<close>

lemma content_outcome:
  assumes "a_snapshot_url args = Some u"
    and "up (content_request (raw_url (case a_raw args of None \<Rightarrow> False | Some b \<Rightarrow> b) u))
           = Answered r"
    and "200 \<le> status_code r" and "status_code r \<le> 299"
  shows "snd (get_snapshot_content up args)
           = Inr (ok_result (content_result
                   (raw_url (case a_raw args of None \<Rightarrow> False | Some b \<Rightarrow> b) u) (body_text r)))"
  using assms
  by (simp add: get_snapshot_content_def Let_def client_get_def raise_for_status_def)

text \<open>
  Claim C5. When the fetch is answered with a 2xx status, get_snapshot_content returns
  a result that is not an error and whose \<open>content_length\<close> is the length of the
  \<open>content\<close> it returns. A body of more than 50,000 characters comes back as its first
  50,000 characters with \<open>truncated\<close> true; a body of at most 50,000 characters comes
  back unchanged with \<open>truncated\<close> false.
\<close>

theorem content_truncation:
  assumes "a_snapshot_url args = Some u"
    and "up (content_request (raw_url (case a_raw args of None \<Rightarrow> False | Some b \<Rightarrow> b) u))
           = Answered r"
    and "200 \<le> status_code r" and "status_code r \<le> 299"
  shows "\<exists>doc c. snd (get_snapshot_content up args) = Inr \<lparr>content = JsonText doc, isError = False\<rparr>
           \<and> field_of doc ''content'' = Some (JStr c)
           \<and> field_of doc ''content_length'' = Some (JNum (int (length c)))
           \<and> (50000 < length (body_text r) \<longrightarrow>
                 c = take 50000 (body_text r) \<and> length c = 50000
                 \<and> field_of doc ''truncated'' = Some (JBool True))
           \<and> (length (body_text r) \<le> 50000 \<longrightarrow>
                 c = body_text r \<and> field_of doc ''truncated'' = Some (JBool False))"
  using content_outcome [of args u up r] assms
  by (simp add: ok_result_def content_result_def field_of_def MAX_CHARS_def Let_def)

theorem content_truncation_witness:
  "(\<exists>doc. snd (get_snapshot_content (page_answer ''<html></html>'')
                 (no_arguments\<lparr>a_snapshot_url := Some ''https://web.archive.org/web/2023/http://example.com''\<rparr>))
             = Inr \<lparr>content = JsonText doc, isError = False\<rparr>
          \<and> field_of doc ''content'' = Some (JStr ''<html></html>'')
          \<and> field_of doc ''content_length'' = Some (JNum 13)
          \<and> field_of doc ''truncated'' = Some (JBool False))
   \<and> (\<exists>doc. snd (get_snapshot_content (page_answer (replicate 50001 (CHR ''a'')))
                 (no_arguments\<lparr>a_snapshot_url := Some ''https://web.archive.org/web/2023/http://example.com''\<rparr>))
             = Inr \<lparr>content = JsonText doc, isError = False\<rparr>
          \<and> field_of doc ''content'' = Some (JStr (replicate 50000 (CHR ''a'')))
          \<and> field_of doc ''content_length'' = Some (JNum 50000)
          \<and> field_of doc ''truncated'' = Some (JBool True))"
proof -
  let ?args = "no_arguments\<lparr>a_snapshot_url := Some ''https://web.archive.org/web/2023/http://example.com''\<rparr>"
  let ?r = "\<lambda>body. \<lparr>status_code = 200, status_error = [], body_text = body,
               json_body = Inl ''Expecting value''\<rparr>"
  have a: "a_snapshot_url ?args = Some ''https://web.archive.org/web/2023/http://example.com''"
    by simp
  have 1: "page_answer body
            (content_request (raw_url (case a_raw ?args of None \<Rightarrow> False | Some b \<Rightarrow> b)
               ''https://web.archive.org/web/2023/http://example.com'')) = Answered (?r body)"
    for body by (simp add: page_answer_def)
  have 2: "\<exists>doc c. snd (get_snapshot_content (page_answer body) ?args)
               = Inr \<lparr>content = JsonText doc, isError = False\<rparr>
           \<and> field_of doc ''content'' = Some (JStr c)
           \<and> field_of doc ''content_length'' = Some (JNum (int (length c)))
           \<and> (50000 < length body \<longrightarrow>
                 c = take 50000 body \<and> length c = 50000
                 \<and> field_of doc ''truncated'' = Some (JBool True))
           \<and> (length body \<le> 50000 \<longrightarrow>
                 c = body \<and> field_of doc ''truncated'' = Some (JBool False))" for body
    using content_truncation [of ?args "''https://web.archive.org/web/2023/http://example.com''"
            "page_answer body" "?r body"] a 1 [of body]
    by simp
  have A: "\<exists>doc. snd (get_snapshot_content (page_answer ''<html></html>'') ?args)
             = Inr \<lparr>content = JsonText doc, isError = False\<rparr>
          \<and> field_of doc ''content'' = Some (JStr ''<html></html>'')
          \<and> field_of doc ''content_length'' = Some (JNum 13)
          \<and> field_of doc ''truncated'' = Some (JBool False)"
    using 2 [of "''<html></html>''"] by auto
  define long where "long = replicate 50001 (CHR ''a'')"
  have l: "50000 < length long" unfolding long_def by (simp only: length_replicate)
  have t: "take 50000 long = replicate 50000 (CHR ''a'')"
    unfolding long_def by simp
  from 2 [of long] obtain doc c where
    d: "snd (get_snapshot_content (page_answer long) ?args)
          = Inr \<lparr>content = JsonText doc, isError = False\<rparr>"
      "field_of doc ''content'' = Some (JStr c)"
      "field_of doc ''content_length'' = Some (JNum (int (length c)))"
    and i: "50000 < length long \<longrightarrow>
              c = take 50000 long \<and> length c = 50000
              \<and> field_of doc ''truncated'' = Some (JBool True)"
    by blast
  from i l have c: "c = take 50000 long" "length c = 50000"
    "field_of doc ''truncated'' = Some (JBool True)" by blast+
  have "field_of doc ''content'' = Some (JStr (replicate 50000 (CHR ''a'')))"
    using d(2) c(1) t by (simp only:)
  moreover have "field_of doc ''content_length'' = Some (JNum 50000)"
    using d(3) c(2) by (simp only: of_nat_numeral)
  ultimately have B: "\<exists>doc. snd (get_snapshot_content (page_answer (replicate 50001 (CHR ''a''))) ?args)
             = Inr \<lparr>content = JsonText doc, isError = False\<rparr>
          \<and> field_of doc ''content'' = Some (JStr (replicate 50000 (CHR ''a'')))
          \<and> field_of doc ''content_length'' = Some (JNum 50000)
          \<and> field_of doc ''truncated'' = Some (JBool True)"
    using d(1) c(3) unfolding long_def by blast
  from A B show ?thesis by (rule conjI)
qed

subsection \<open>The limit of search_snapshots\<close>

lemma limit_sent_search:
  "limit_sent (cdx_request (search_params url args)) = Some (PInt (search_limit args))"
  by (simp add: limit_sent_def cdx_request_def search_params_def)

lemma search_requests:
  "a_url args = Some url \<Longrightarrow>
   fst (search_snapshots up args) = [cdx_request (search_params url args)]"
  by (simp add: search_snapshots_def Let_def)

text \<open>
  Claim C2 says the limit sent upstream is the requested integer clamped to the range
  from 1 to 100. The code takes the minimum with 100 and has no lower bound: a requested
  limit of 0 is sent as 0.
\<close>

theorem search_limit_zero_counterexample:
  "map limit_sent
     (fst (search_snapshots upstream_down
             (no_arguments\<lparr>a_url := Some ''example.com'', a_limit := Some 0\<rparr>)))
   = [Some (PInt 0)]"
  by (simp add: search_requests limit_sent_search search_limit_def no_arguments_def)

text \<open>
  Claim C2, amended. search_snapshots issues one request, and the limit it carries is
  the minimum of the requested integer and 100, the requested integer being 10 when the
  argument is absent. So the limit is at most 100, a request for 500 sends 100, a
  requested limit of at least 1 sends a limit between 1 and 100, and a requested limit
  below 1 is sent as it is.
\<close>

theorem search_limit_upper_clamp:
  assumes "a_url args = Some url"
  shows "\<exists>l. map limit_sent (fst (search_snapshots up args)) = [Some (PInt l)]
           \<and> l = min (case a_limit args of None \<Rightarrow> 10 | Some n \<Rightarrow> n) 100
           \<and> l \<le> 100
           \<and> (a_limit args = None \<longrightarrow> l = 10)
           \<and> (a_limit args = Some 500 \<longrightarrow> l = 100)
           \<and> (\<forall>n. a_limit args = Some n \<longrightarrow> 1 \<le> n \<longrightarrow> 1 \<le> l)
           \<and> (\<forall>n. a_limit args = Some n \<longrightarrow> n < 1 \<longrightarrow> l = n)"
proof -
  have "map limit_sent (fst (search_snapshots up args)) = [Some (PInt (search_limit args))]"
    by (simp add: search_requests [OF assms] limit_sent_search)
  then show ?thesis by (auto simp: search_limit_def)
qed

theorem search_limit_upper_clamp_witness:
  "map limit_sent
     (fst (search_snapshots upstream_down
             (no_arguments\<lparr>a_url := Some ''example.com'', a_limit := Some 500\<rparr>)))
   = [Some (PInt 100)]"
  using search_limit_upper_clamp
          [of "no_arguments\<lparr>a_url := Some ''example.com'', a_limit := Some 500\<rparr>"
              "''example.com''" upstream_down]
  by (auto simp: no_arguments_def)

subsection \<open>Timestamps\<close>

text \<open>
  Claim C4 says that on a parse failure \<open>_format_timestamp\<close> returns its input
  unchanged. The handler returns \<open>ts\<close>, which by then names the padded string: the
  four-digit timestamp \<open>2023\<close> pads to \<open>20230000000000\<close>, month 00 does not parse, and the
  padded string is returned.
\<close>

theorem format_timestamp_returns_padded:
  "format_timestamp ''2023'' = ''20230000000000''"
  by code_simp

text \<open>An input of 14 characters or more is not padded, so there the input itself comes back.\<close>

lemma format_timestamp_long_input:
  assumes "14 \<le> length ts"
  shows "format_timestamp ts = ts \<or> (\<exists>dt. strptime (take 14 ts) = Some dt \<and> format_timestamp ts = strftime dt)"
  using assms by (auto simp: format_timestamp_def ljust_def split: option.splits)

lemma format_timestamp_example:
  "format_timestamp ''20230101120000'' = ''2023-01-01 12:00:00 UTC''"
  by code_simp

subsection \<open>call_tool\<close>

text \<open>
  Claim C9. call_tool returns a result for every name, argument dict and upstream, and
  raises nothing: a name outside the five operations gives the error-flagged text
  \<open>Unknown tool: \<close> followed by the name, and whatever exception an operation raises
  becomes the error-flagged text \<open>Error: \<close> followed by the exception's message.
\<close>

theorem call_tool_catches:
  "(name \<notin> {''get_latest_snapshot'', ''get_snapshot_at_date'', ''search_snapshots'',
              ''get_snapshot_content'', ''check_url_availability''} \<longrightarrow>
      call_tool up name args = ([], \<lparr>content = Text (''Unknown tool: '' @ name), isError = True\<rparr>))
   \<and> (\<forall>e. snd (get_latest_snapshot up args) = Inl e \<longrightarrow>
          snd (call_tool up ''get_latest_snapshot'' args)
            = \<lparr>content = Text (''Error: '' @ exn_str e), isError = True\<rparr>)
   \<and> (\<forall>e. snd (get_snapshot_at_date up args) = Inl e \<longrightarrow>
          snd (call_tool up ''get_snapshot_at_date'' args)
            = \<lparr>content = Text (''Error: '' @ exn_str e), isError = True\<rparr>)
   \<and> (\<forall>e. snd (search_snapshots up args) = Inl e \<longrightarrow>
          snd (call_tool up ''search_snapshots'' args)
            = \<lparr>content = Text (''Error: '' @ exn_str e), isError = True\<rparr>)
   \<and> (\<forall>e. snd (get_snapshot_content up args) = Inl e \<longrightarrow>
          snd (call_tool up ''get_snapshot_content'' args)
            = \<lparr>content = Text (''Error: '' @ exn_str e), isError = True\<rparr>)
   \<and> (\<forall>e. snd (check_url_availability up args) = Inl e \<longrightarrow>
          snd (call_tool up ''check_url_availability'' args)
            = \<lparr>content = Text (''Error: '' @ exn_str e), isError = True\<rparr>)"
  by (simp add: call_tool_def catch_def error_result_def)

theorem call_tool_catches_witness:
  "call_tool upstream_down ''frobnicate'' no_arguments
     = ([], \<lparr>content = Text ''Unknown tool: frobnicate'', isError = True\<rparr>)
   \<and> snd (call_tool upstream_down ''get_latest_snapshot'' no_arguments)
     = \<lparr>content = Text (''Error: '' @ [CHR 0x27] @ ''url'' @ [CHR 0x27]), isError = True\<rparr>
   \<and> snd (call_tool upstream_down ''search_snapshots'' (no_arguments\<lparr>a_url := Some ''example.com''\<rparr>))
     = \<lparr>content = Text ''Error: connection refused'', isError = True\<rparr>"
proof -
  have 1: "snd (get_latest_snapshot upstream_down no_arguments) = Inl (key_error ''url'')"
    by (simp add: get_latest_snapshot_def no_arguments_def)
  have 2: "snd (search_snapshots upstream_down (no_arguments\<lparr>a_url := Some ''example.com''\<rparr>))
             = Inl (Raise TransportError ''connection refused'')"
    by (simp add: search_snapshots_def no_arguments_def Let_def fetch_json_def client_get_def
          upstream_down_def)
  show ?thesis
    using call_tool_catches [of "''frobnicate''" upstream_down no_arguments]
      call_tool_catches [of "''frobnicate''" upstream_down "no_arguments\<lparr>a_url := Some ''example.com''\<rparr>"]
      1 2
    by (simp add: key_error_def sq_def)
qed

subsection \<open>The result of check_url_availability\<close>

lemma availability_answered:
  assumes "a_url args = Some url"
    and "up (count_request url) = Answered rc"
    and "up (first_request url) = Answered rf"
    and "up (last_request url) = Answered rl"
  shows "check_url_availability up args
           = ([count_request url, first_request url, last_request url],
              map_sum id ok_result (availability_result url rf rl))"
  using assms by (simp add: check_url_availability_def client_get_def)

lemma snapshot_of_empty: "snapshot_of (JArr []) = Inr JNull"
  by (simp add: snapshot_of_def)

lemma snapshot_of_rows:
  assumes "\<forall>row \<in> set (drop 1 rows). \<exists>c cs. row = JArr (c # cs)"
  shows "\<exists>s. snapshot_of (JArr rows) = Inr s \<and> (s \<noteq> JNull \<longleftrightarrow> 1 < length rows)"
proof (cases rows)
  case Nil
  then show ?thesis by (simp add: snapshot_of_def)
next
  case (Cons h rest)
  show ?thesis
  proof (cases rest)
    case Nil
    with Cons show ?thesis by (simp add: snapshot_of_def)
  next
    case (Cons row more)
    with assms \<open>rows = h # rest\<close> obtain c cs where "row = JArr (c # cs)" by auto
    with Cons \<open>rows = h # rest\<close> show ?thesis by (simp add: snapshot_of_def)
  qed
qed

lemma snapshot_of_data:
  assumes "status_code r = 200 \<longrightarrow>
             json_body r = Inr (JArr rows)
             \<and> (\<forall>row \<in> set (drop 1 rows). \<exists>c cs. row = JArr (c # cs))"
  shows "\<exists>d s. data_of r = Inr d \<and> snapshot_of d = Inr s
           \<and> (s \<noteq> JNull \<longleftrightarrow> status_code r = 200 \<and> 1 < length rows)"
proof (cases "status_code r = 200")
  case True
  with assms have "data_of r = Inr (JArr rows)"
    by (simp add: data_of_def response_json_def)
  moreover from True assms snapshot_of_rows [of rows]
  obtain s where "snapshot_of (JArr rows) = Inr s" "s \<noteq> JNull \<longleftrightarrow> 1 < length rows"
    by blast
  ultimately show ?thesis using True by auto
next
  case False
  then have "data_of r = Inr (JArr [])" by (simp add: data_of_def)
  with False show ?thesis by (auto simp: snapshot_of_empty)
qed

lemma snapshot_of_array_result:
  "snapshot_of (JArr rows) = Inr s \<Longrightarrow> (s \<noteq> JNull \<longleftrightarrow> 1 < length rows)"
  by (cases rows) (auto simp: snapshot_of_def split: sum.splits if_splits)

lemma availability_result_archived:
  assumes "availability_result url rf rl = Inr doc"
    and "status_code rf = 200 \<longrightarrow> json_body rf = Inr (JArr frows)"
  shows "field_of doc ''is_archived'' = Some (JBool (status_code rf = 200 \<and> 1 < length frows))"
proof -
  let ?rows = "if status_code rf = 200 then frows else []"
  have d: "data_of rf = Inr (JArr ?rows)"
    using assms(2) by (simp add: data_of_def response_json_def)
  from assms(1) obtain fs where
    fs: "snapshot_of (JArr ?rows) = Inr fs"
    and doc: "field_of doc ''is_archived'' = Some (JBool (fs \<noteq> JNull))"
    unfolding availability_result_def d
    by (auto simp: field_of_def split: sum.splits)
  from snapshot_of_array_result [OF fs] doc show ?thesis by (auto split: if_splits)
qed

lemma availability_result_well_formed:
  assumes "status_code rf = 200 \<longrightarrow>
             json_body rf = Inr (JArr frows)
             \<and> (\<forall>row \<in> set (drop 1 frows). \<exists>c cs. row = JArr (c # cs))"
    and "status_code rl = 200 \<longrightarrow>
             json_body rl = Inr (JArr lrows)
             \<and> (\<forall>row \<in> set (drop 1 lrows). \<exists>c cs. row = JArr (c # cs))"
  shows "\<exists>doc. availability_result url rf rl = Inr doc"
proof -
  from snapshot_of_data [OF assms(1)] obtain fd fs where
    f: "data_of rf = Inr fd" "snapshot_of fd = Inr fs" by blast
  from snapshot_of_data [OF assms(2)] obtain ld ls where
    l: "data_of rl = Inr ld" "snapshot_of ld = Inr ls" by blast
  show ?thesis using f l by (simp add: availability_result_def)
qed

lemma availability_any_status:
  assumes "a_url args = Some url"
    and "up (count_request url) = Answered rc"
    and "up (first_request url) = Answered rf"
    and "up (last_request url) = Answered rl"
    and "status_code rf = 200 \<longrightarrow>
           (\<exists>rows. json_body rf = Inr (JArr rows)
              \<and> (\<forall>row \<in> set (drop 1 rows). \<exists>c cs. row = JArr (c # cs)))"
    and "status_code rl = 200 \<longrightarrow>
           (\<exists>rows. json_body rl = Inr (JArr rows)
              \<and> (\<forall>row \<in> set (drop 1 rows). \<exists>c cs. row = JArr (c # cs)))"
  shows "\<exists>doc. call_tool up ''check_url_availability'' args
                 = ([count_request url, first_request url, last_request url],
                    \<lparr>content = JsonText doc, isError = False\<rparr>)"
proof -
  from assms(5) obtain frows where
    f: "status_code rf = 200 \<longrightarrow>
          json_body rf = Inr (JArr frows)
          \<and> (\<forall>row \<in> set (drop 1 frows). \<exists>c cs. row = JArr (c # cs))"
    by blast
  from assms(6) obtain lrows where
    l: "status_code rl = 200 \<longrightarrow>
          json_body rl = Inr (JArr lrows)
          \<and> (\<forall>row \<in> set (drop 1 lrows). \<exists>c cs. row = JArr (c # cs))"
    by blast
  from availability_result_well_formed [OF f l, of url]
  obtain doc where "availability_result url rf rl = Inr doc" by blast
  then show ?thesis
    by (simp add: call_tool_def availability_answered [of args url up rc rf rl, OF assms(1-4)]
          catch_def ok_result_def)
qed

subsection \<open>Upstream failures\<close>

lemma fetch_json_failure:
  "upstream_failure (up rq) = Some m \<Longrightarrow> \<exists>c. fetch_json up rq = Inl (Raise c m)"
  by (auto simp: upstream_failure_def fetch_json_def client_get_def raise_for_status_def
        split: http_outcome.splits if_splits)

lemma catch_error:
  "snd out = Inl (Raise c m) \<Longrightarrow> catch out = (fst out, \<lparr>content = Text (''Error: '' @ m), isError = True\<rparr>)"
  by (simp add: catch_def error_result_def)

lemma latest_failure:
  assumes "a_url args = Some url"
    and "upstream_failure (up (availability_request [(''url'', PStr url)])) = Some m"
  shows "call_tool up ''get_latest_snapshot'' args
           = ([availability_request [(''url'', PStr url)]],
              \<lparr>content = Text (''Error: '' @ m), isError = True\<rparr>)"
proof -
  from fetch_json_failure [of up "availability_request [(''url'', PStr url)]" m] assms(2)
  obtain c where
    "fetch_json up (availability_request [(''url'', PStr url)]) = Inl (Raise c m)" by blast
  with assms(1) have "get_latest_snapshot up args
      = ([availability_request [(''url'', PStr url)]], Inl (Raise c m))"
    by (simp add: get_latest_snapshot_def Let_def)
  then show ?thesis by (simp add: call_tool_def catch_error)
qed

lemma at_date_failure:
  assumes "a_url args = Some url" and "a_timestamp args = Some ts"
    and "upstream_failure
           (up (availability_request [(''url'', PStr url), (''timestamp'', PStr ts)])) = Some m"
  shows "call_tool up ''get_snapshot_at_date'' args
           = ([availability_request [(''url'', PStr url), (''timestamp'', PStr ts)]],
              \<lparr>content = Text (''Error: '' @ m), isError = True\<rparr>)"
proof -
  from fetch_json_failure
         [of up "availability_request [(''url'', PStr url), (''timestamp'', PStr ts)]" m] assms(3)
  obtain c where
    "fetch_json up (availability_request [(''url'', PStr url), (''timestamp'', PStr ts)])
       = Inl (Raise c m)" by blast
  with assms(1,2) have "get_snapshot_at_date up args
      = ([availability_request [(''url'', PStr url), (''timestamp'', PStr ts)]], Inl (Raise c m))"
    by (simp add: get_snapshot_at_date_def Let_def)
  then show ?thesis by (simp add: call_tool_def catch_error)
qed

lemma search_failure:
  assumes "a_url args = Some url"
    and "upstream_failure (up (cdx_request (search_params url args))) = Some m"
  shows "call_tool up ''search_snapshots'' args
           = ([cdx_request (search_params url args)],
              \<lparr>content = Text (''Error: '' @ m), isError = True\<rparr>)"
proof -
  from fetch_json_failure [of up "cdx_request (search_params url args)" m] assms(2)
  obtain c where
    "fetch_json up (cdx_request (search_params url args)) = Inl (Raise c m)" by blast
  with assms(1) have "search_snapshots up args
      = ([cdx_request (search_params url args)], Inl (Raise c m))"
    by (simp add: search_snapshots_def Let_def)
  then show ?thesis by (simp add: call_tool_def catch_error)
qed

lemma fetch_text_failure:
  "upstream_failure (up rq) = Some m \<Longrightarrow>
   \<exists>c. (case client_get up rq of
          Inl e \<Rightarrow> Inl e
        | Inr r \<Rightarrow> (case raise_for_status r of Inl e \<Rightarrow> Inl e | Inr r' \<Rightarrow> Inr (f r')))
       = Inl (Raise c m)"
  by (auto simp: upstream_failure_def client_get_def raise_for_status_def
        split: http_outcome.splits if_splits)

lemma content_failure:
  assumes "a_snapshot_url args = Some u"
    and "upstream_failure
           (up (content_request (raw_url (case a_raw args of None \<Rightarrow> False | Some b \<Rightarrow> b) u)))
         = Some m"
  shows "call_tool up ''get_snapshot_content'' args
           = ([content_request (raw_url (case a_raw args of None \<Rightarrow> False | Some b \<Rightarrow> b) u)],
              \<lparr>content = Text (''Error: '' @ m), isError = True\<rparr>)"
proof -
  let ?v = "raw_url (case a_raw args of None \<Rightarrow> False | Some b \<Rightarrow> b) u"
  from fetch_text_failure
         [of up "content_request ?v" m "\<lambda>r'. ok_result (content_result ?v (body_text r'))"]
       assms(2)
  obtain c where "(case client_get up (content_request ?v) of
          Inl e \<Rightarrow> Inl e
        | Inr r \<Rightarrow> (case raise_for_status r of Inl e \<Rightarrow> Inl e
             | Inr r' \<Rightarrow> Inr (ok_result (content_result ?v (body_text r')))))
       = Inl (Raise c m)" by blast
  with assms(1) have "get_snapshot_content up args = ([content_request ?v], Inl (Raise c m))"
    by (simp add: get_snapshot_content_def Let_def)
  then show ?thesis by (simp add: call_tool_def catch_error)
qed

lemma availability_transport_failure:
  assumes "a_url args = Some url"
  shows "up (count_request url) = Failed m \<Longrightarrow>
           call_tool up ''check_url_availability'' args
             = ([count_request url], \<lparr>content = Text (''Error: '' @ m), isError = True\<rparr>)"
    and "up (count_request url) = Answered rc \<Longrightarrow> up (first_request url) = Failed m \<Longrightarrow>
           call_tool up ''check_url_availability'' args
             = ([count_request url, first_request url],
                \<lparr>content = Text (''Error: '' @ m), isError = True\<rparr>)"
    and "up (count_request url) = Answered rc \<Longrightarrow> up (first_request url) = Answered rf \<Longrightarrow>
         up (last_request url) = Failed m \<Longrightarrow>
           call_tool up ''check_url_availability'' args
             = ([count_request url, first_request url, last_request url],
                \<lparr>content = Text (''Error: '' @ m), isError = True\<rparr>)"
  using assms
  by (simp_all add: call_tool_def check_url_availability_def client_get_def catch_def
        error_result_def)

lemma availability_other_status:
  assumes "a_url args = Some url"
    and "up (count_request url) = Answered rc"
    and "up (first_request url) = Answered rf"
    and "up (last_request url) = Answered rl"
    and "status_code rf \<noteq> 200" and "status_code rl \<noteq> 200"
  shows "call_tool up ''check_url_availability'' args
           = ([count_request url, first_request url, last_request url],
              \<lparr>content = JsonText (JObj
                   [(''url'', JStr url), (''is_archived'', JBool False),
                    (''first_snapshot'', JNull), (''latest_snapshot'', JNull),
                    (''wayback_url'', JStr (''https://web.archive.org/web/*/'' @ url))]),
               isError = False\<rparr>)"
  using assms(5,6)
  by (simp add: call_tool_def availability_answered [OF assms(1-4)] catch_def
        availability_result_def data_of_def snapshot_of_empty ok_result_def)

text \<open>
  Claim C3 says a response with a status outside 2xx always yields a result flagged as
  an error. check_url_availability never checks the status of its three responses: it
  reads the body of a response only when the status is 200 and takes every other
  response for an empty list. With status 500 on all three requests it reports, without
  the error flag, that the URL is not archived.
\<close>

theorem failed_status_not_an_error_counterexample:
  "call_tool (error_page 500) ''check_url_availability''
     (no_arguments\<lparr>a_url := Some ''example.com''\<rparr>)
   = ([count_request ''example.com'', first_request ''example.com'', last_request ''example.com''],
      \<lparr>content = JsonText (JObj
           [(''url'', JStr ''example.com''), (''is_archived'', JBool False),
            (''first_snapshot'', JNull), (''latest_snapshot'', JNull),
            (''wayback_url'', JStr ''https://web.archive.org/web/*/example.com'')]),
       isError = False\<rparr>)"
  by (simp add: call_tool_def check_url_availability_def client_get_def catch_def
        error_page_def no_arguments_def availability_result_def data_of_def snapshot_of_empty
        ok_result_def)

text \<open>
  Claim C3, amended. get_latest_snapshot, get_snapshot_at_date, search_snapshots and
  get_snapshot_content issue one request; when it gets no response, or a response whose
  status is outside 2xx, the result is the error-flagged text \<open>Error: \<close> followed
  by the failure's message, and that request is the only one issued.
  check_url_availability issues its count, earliest-capture and latest-capture requests
  in this order; when one of them gets no response, the result is the error-flagged text
  with that failure's message, and the requests issued are those up to the failed one,
  each once. The status of a response is no failure to check_url_availability. When all
  three requests are answered and both capture responses have a status other than 200,
  the result is the normal document, not flagged as an error, with \<open>is_archived\<close>
  false and no snapshots. When all three requests are answered and each capture
  response with status 200 carries a JSON array whose rows after the header are
  non-empty arrays, the result is a normal document, not flagged as an error, whatever
  the statuses of the three responses are.
\<close>

theorem upstream_failure_is_error:
  "(\<forall>url m. a_url args = Some url
       \<and> upstream_failure (up (availability_request [(''url'', PStr url)])) = Some m \<longrightarrow>
      call_tool up ''get_latest_snapshot'' args
        = ([availability_request [(''url'', PStr url)]],
           \<lparr>content = Text (''Error: '' @ m), isError = True\<rparr>))
   \<and> (\<forall>url ts m. a_url args = Some url \<and> a_timestamp args = Some ts
       \<and> upstream_failure
            (up (availability_request [(''url'', PStr url), (''timestamp'', PStr ts)])) = Some m \<longrightarrow>
      call_tool up ''get_snapshot_at_date'' args
        = ([availability_request [(''url'', PStr url), (''timestamp'', PStr ts)]],
           \<lparr>content = Text (''Error: '' @ m), isError = True\<rparr>))
   \<and> (\<forall>url m. a_url args = Some url
       \<and> upstream_failure (up (cdx_request (search_params url args))) = Some m \<longrightarrow>
      call_tool up ''search_snapshots'' args
        = ([cdx_request (search_params url args)],
           \<lparr>content = Text (''Error: '' @ m), isError = True\<rparr>))
   \<and> (\<forall>u m. a_snapshot_url args = Some u
       \<and> upstream_failure
            (up (content_request (raw_url (case a_raw args of None \<Rightarrow> False | Some b \<Rightarrow> b) u)))
          = Some m \<longrightarrow>
      call_tool up ''get_snapshot_content'' args
        = ([content_request (raw_url (case a_raw args of None \<Rightarrow> False | Some b \<Rightarrow> b) u)],
           \<lparr>content = Text (''Error: '' @ m), isError = True\<rparr>))
   \<and> (\<forall>url m. a_url args = Some url \<and> up (count_request url) = Failed m \<longrightarrow>
      call_tool up ''check_url_availability'' args
        = ([count_request url], \<lparr>content = Text (''Error: '' @ m), isError = True\<rparr>))
   \<and> (\<forall>url rc m. a_url args = Some url \<and> up (count_request url) = Answered rc
       \<and> up (first_request url) = Failed m \<longrightarrow>
      call_tool up ''check_url_availability'' args
        = ([count_request url, first_request url],
           \<lparr>content = Text (''Error: '' @ m), isError = True\<rparr>))
   \<and> (\<forall>url rc rf m. a_url args = Some url \<and> up (count_request url) = Answered rc
       \<and> up (first_request url) = Answered rf \<and> up (last_request url) = Failed m \<longrightarrow>
      call_tool up ''check_url_availability'' args
        = ([count_request url, first_request url, last_request url],
           \<lparr>content = Text (''Error: '' @ m), isError = True\<rparr>))
   \<and> (\<forall>url rc rf rl. a_url args = Some url \<and> up (count_request url) = Answered rc
       \<and> up (first_request url) = Answered rf \<and> up (last_request url) = Answered rl
       \<and> status_code rf \<noteq> 200 \<and> status_code rl \<noteq> 200 \<longrightarrow>
      call_tool up ''check_url_availability'' args
        = ([count_request url, first_request url, last_request url],
           \<lparr>content = JsonText (JObj
                [(''url'', JStr url), (''is_archived'', JBool False),
                 (''first_snapshot'', JNull), (''latest_snapshot'', JNull),
                 (''wayback_url'', JStr (''https://web.archive.org/web/*/'' @ url))]),
            isError = False\<rparr>))
   \<and> (\<forall>url rc rf rl. a_url args = Some url \<and> up (count_request url) = Answered rc
       \<and> up (first_request url) = Answered rf \<and> up (last_request url) = Answered rl
       \<and> (status_code rf = 200 \<longrightarrow>
            (\<exists>rows. json_body rf = Inr (JArr rows)
               \<and> (\<forall>row \<in> set (drop 1 rows). \<exists>c cs. row = JArr (c # cs))))
       \<and> (status_code rl = 200 \<longrightarrow>
            (\<exists>rows. json_body rl = Inr (JArr rows)
               \<and> (\<forall>row \<in> set (drop 1 rows). \<exists>c cs. row = JArr (c # cs)))) \<longrightarrow>
      (\<exists>doc. call_tool up ''check_url_availability'' args
               = ([count_request url, first_request url, last_request url],
                  \<lparr>content = JsonText doc, isError = False\<rparr>)))"
proof (intro conjI allI impI; (elim conjE)?)
  fix url m
  assume "a_url args = Some url"
    and "upstream_failure (up (availability_request [(''url'', PStr url)])) = Some m"
  then show "call_tool up ''get_latest_snapshot'' args
        = ([availability_request [(''url'', PStr url)]],
           \<lparr>content = Text (''Error: '' @ m), isError = True\<rparr>)"
    by (rule latest_failure)
next
  fix url ts m
  assume "a_url args = Some url" and "a_timestamp args = Some ts"
    and "upstream_failure
            (up (availability_request [(''url'', PStr url), (''timestamp'', PStr ts)])) = Some m"
  then show "call_tool up ''get_snapshot_at_date'' args
        = ([availability_request [(''url'', PStr url), (''timestamp'', PStr ts)]],
           \<lparr>content = Text (''Error: '' @ m), isError = True\<rparr>)"
    by (rule at_date_failure)
next
  fix url m
  assume "a_url args = Some url"
    and "upstream_failure (up (cdx_request (search_params url args))) = Some m"
  then show "call_tool up ''search_snapshots'' args
        = ([cdx_request (search_params url args)],
           \<lparr>content = Text (''Error: '' @ m), isError = True\<rparr>)"
    by (rule search_failure)
next
  fix u m
  assume "a_snapshot_url args = Some u"
    and "upstream_failure
            (up (content_request (raw_url (case a_raw args of None \<Rightarrow> False | Some b \<Rightarrow> b) u)))
          = Some m"
  then show "call_tool up ''get_snapshot_content'' args
        = ([content_request (raw_url (case a_raw args of None \<Rightarrow> False | Some b \<Rightarrow> b) u)],
           \<lparr>content = Text (''Error: '' @ m), isError = True\<rparr>)"
    by (rule content_failure)
next
  fix url m
  assume "a_url args = Some url" and "up (count_request url) = Failed m"
  then show "call_tool up ''check_url_availability'' args
        = ([count_request url], \<lparr>content = Text (''Error: '' @ m), isError = True\<rparr>)"
    by (rule availability_transport_failure(1))
next
  fix url rc m
  assume "a_url args = Some url" and "up (count_request url) = Answered rc"
    and "up (first_request url) = Failed m"
  then show "call_tool up ''check_url_availability'' args
        = ([count_request url, first_request url],
           \<lparr>content = Text (''Error: '' @ m), isError = True\<rparr>)"
    by (rule availability_transport_failure(2))
next
  fix url rc rf m
  assume "a_url args = Some url" and "up (count_request url) = Answered rc"
    and "up (first_request url) = Answered rf" and "up (last_request url) = Failed m"
  then show "call_tool up ''check_url_availability'' args
        = ([count_request url, first_request url, last_request url],
           \<lparr>content = Text (''Error: '' @ m), isError = True\<rparr>)"
    by (rule availability_transport_failure(3))
next
  fix url rc rf rl
  assume "a_url args = Some url" and "up (count_request url) = Answered rc"
    and "up (first_request url) = Answered rf" and "up (last_request url) = Answered rl"
    and "status_code rf \<noteq> 200" and "status_code rl \<noteq> 200"
  then show "call_tool up ''check_url_availability'' args
        = ([count_request url, first_request url, last_request url],
           \<lparr>content = JsonText (JObj
                [(''url'', JStr url), (''is_archived'', JBool False),
                 (''first_snapshot'', JNull), (''latest_snapshot'', JNull),
                 (''wayback_url'', JStr (''https://web.archive.org/web/*/'' @ url))]),
            isError = False\<rparr>)"
    by (rule availability_other_status)
next
  fix url rc rf rl
  assume "a_url args = Some url" and "up (count_request url) = Answered rc"
    and "up (first_request url) = Answered rf" and "up (last_request url) = Answered rl"
    and "status_code rf = 200 \<longrightarrow>
            (\<exists>rows. json_body rf = Inr (JArr rows)
               \<and> (\<forall>row \<in> set (drop 1 rows). \<exists>c cs. row = JArr (c # cs)))"
    and "status_code rl = 200 \<longrightarrow>
            (\<exists>rows. json_body rl = Inr (JArr rows)
               \<and> (\<forall>row \<in> set (drop 1 rows). \<exists>c cs. row = JArr (c # cs)))"
  then show "\<exists>doc. call_tool up ''check_url_availability'' args
               = ([count_request url, first_request url, last_request url],
                  \<lparr>content = JsonText doc, isError = False\<rparr>)"
    by (rule availability_any_status)
qed

theorem upstream_failure_is_error_witness:
  "call_tool (error_page 503) ''search_snapshots'' (no_arguments\<lparr>a_url := Some ''example.com''\<rparr>)
     = ([cdx_request (search_params ''example.com'' (no_arguments\<lparr>a_url := Some ''example.com''\<rparr>))],
        \<lparr>content = Text ''Error: status 503'', isError = True\<rparr>)
   \<and> call_tool upstream_down ''get_latest_snapshot'' (no_arguments\<lparr>a_url := Some ''example.com''\<rparr>)
     = ([availability_request [(''url'', PStr ''example.com'')]],
        \<lparr>content = Text ''Error: connection refused'', isError = True\<rparr>)
   \<and> call_tool upstream_down ''check_url_availability'' (no_arguments\<lparr>a_url := Some ''example.com''\<rparr>)
     = ([count_request ''example.com''],
        \<lparr>content = Text ''Error: connection refused'', isError = True\<rparr>)"
proof -
  let ?args = "no_arguments\<lparr>a_url := Some ''example.com''\<rparr>"
  have a: "a_url ?args = Some ''example.com''" by simp
  have 1: "upstream_failure (error_page 503 (cdx_request (search_params ''example.com'' ?args)))
             = Some ''status 503''"
    by (simp add: upstream_failure_def error_page_def digit_char_def)
  have 2: "upstream_failure (upstream_down (availability_request [(''url'', PStr ''example.com'')]))
             = Some ''connection refused''"
    by (simp add: upstream_failure_def upstream_down_def)
  have 3: "upstream_down (count_request ''example.com'') = Failed ''connection refused''"
    by (simp add: upstream_down_def)
  note down = upstream_failure_is_error [of ?args upstream_down]
  note page = upstream_failure_is_error [of ?args "error_page 503"]
  have "call_tool (error_page 503) ''search_snapshots'' ?args
          = ([cdx_request (search_params ''example.com'' ?args)],
             \<lparr>content = Text (''Error: '' @ ''status 503''), isError = True\<rparr>)"
    by (rule page [THEN conjunct2, THEN conjunct2, THEN conjunct1, rule_format,
                   OF conjI [OF a 1]])
  moreover
  have "call_tool upstream_down ''get_latest_snapshot'' ?args
          = ([availability_request [(''url'', PStr ''example.com'')]],
             \<lparr>content = Text (''Error: '' @ ''connection refused''), isError = True\<rparr>)"
    by (rule down [THEN conjunct1, rule_format, OF conjI [OF a 2]])
  moreover
  have "call_tool upstream_down ''check_url_availability'' ?args
          = ([count_request ''example.com''],
             \<lparr>content = Text (''Error: '' @ ''connection refused''), isError = True\<rparr>)"
    by (rule down [THEN conjunct2, THEN conjunct2, THEN conjunct2, THEN conjunct2,
                   THEN conjunct1, rule_format, OF conjI [OF a 3]])
  ultimately show ?thesis by simp
qed

subsection \<open>check_url_availability: is_archived\<close>

text \<open>
  Claim C1 says \<open>is_archived\<close> is true whenever the earliest-capture response
  carries a data row. The code reads that response only when its status is exactly 200:
  the same rows under status 203 give \<open>is_archived\<close> false.
\<close>

theorem other_success_status_counterexample:
  "snd (check_url_availability (json_answer 203 one_capture)
          (no_arguments\<lparr>a_url := Some ''example.com''\<rparr>))
   = Inr \<lparr>content = JsonText (JObj
            [(''url'', JStr ''example.com''), (''is_archived'', JBool False),
             (''first_snapshot'', JNull), (''latest_snapshot'', JNull),
             (''wayback_url'', JStr ''https://web.archive.org/web/*/example.com'')]),
          isError = False\<rparr>"
  by (simp add: check_url_availability_def client_get_def json_answer_def no_arguments_def
        availability_result_def data_of_def snapshot_of_empty ok_result_def)

text \<open>
  Claim C1, amended. Let the three requests of check_url_availability be answered, the
  earliest-capture response carrying a JSON array whenever its status is 200. Then
  whenever check_url_availability returns a result rather than raising, \<open>is_archived\<close>
  is true exactly when the earliest-capture response has status 200 and its array holds
  at least one row after the header. It does return a result, with that value of
  \<open>is_archived\<close>, when moreover the rows after the header of the earliest-capture
  array are non-empty arrays and the latest-capture response, if its status is 200,
  carries a JSON array whose rows after the header are non-empty arrays. Nothing is
  asked of the count response, nor of a capture response with a status other than 200,
  which is read as an empty list.
\<close>

theorem is_archived_iff_first_row:
  assumes "a_url args = Some url"
    and "up (count_request url) = Answered rc"
    and "up (first_request url) = Answered rf"
    and "up (last_request url) = Answered rl"
    and "status_code rf = 200 \<longrightarrow> json_body rf = Inr (JArr frows)"
  shows "(\<forall>doc. snd (check_url_availability up args)
                  = Inr \<lparr>content = JsonText doc, isError = False\<rparr> \<longrightarrow>
            field_of doc ''is_archived''
              = Some (JBool (status_code rf = 200 \<and> 1 < length frows)))
         \<and> ((status_code rf = 200 \<longrightarrow>
                (\<forall>row \<in> set (drop 1 frows). \<exists>c cs. row = JArr (c # cs)))
             \<and> (status_code rl = 200 \<longrightarrow>
                  (\<exists>lrows. json_body rl = Inr (JArr lrows)
                     \<and> (\<forall>row \<in> set (drop 1 lrows). \<exists>c cs. row = JArr (c # cs))))
             \<longrightarrow> (\<exists>doc. snd (check_url_availability up args)
                           = Inr \<lparr>content = JsonText doc, isError = False\<rparr>
                     \<and> field_of doc ''is_archived''
                           = Some (JBool (status_code rf = 200 \<and> 1 < length frows))))"
proof -
  note ans = availability_answered [of args url up rc rf rl, OF assms(1-4)]
  have A: "field_of doc ''is_archived''
             = Some (JBool (status_code rf = 200 \<and> 1 < length frows))"
    if "snd (check_url_availability up args) = Inr \<lparr>content = JsonText doc, isError = False\<rparr>"
    for doc
  proof -
    from that have "availability_result url rf rl = Inr doc"
      unfolding ans by (cases "availability_result url rf rl") (simp_all add: ok_result_def)
    then show ?thesis using assms(5) by (rule availability_result_archived)
  qed
  have B: "\<exists>doc. snd (check_url_availability up args)
                   = Inr \<lparr>content = JsonText doc, isError = False\<rparr>"
    if f: "status_code rf = 200 \<longrightarrow>
             (\<forall>row \<in> set (drop 1 frows). \<exists>c cs. row = JArr (c # cs))"
      and l: "status_code rl = 200 \<longrightarrow>
               (\<exists>lrows. json_body rl = Inr (JArr lrows)
                  \<and> (\<forall>row \<in> set (drop 1 lrows). \<exists>c cs. row = JArr (c # cs)))"
  proof -
    from l obtain lrows where
      l': "status_code rl = 200 \<longrightarrow>
             json_body rl = Inr (JArr lrows)
             \<and> (\<forall>row \<in> set (drop 1 lrows). \<exists>c cs. row = JArr (c # cs))"
      by blast
    from f assms(5) have
      f': "status_code rf = 200 \<longrightarrow>
             json_body rf = Inr (JArr frows)
             \<and> (\<forall>row \<in> set (drop 1 frows). \<exists>c cs. row = JArr (c # cs))"
      by blast
    from availability_result_well_formed [OF f' l', of url]
    obtain doc where "availability_result url rf rl = Inr doc" by blast
    then show ?thesis unfolding ans by (simp add: ok_result_def)
  qed
  from A B show ?thesis by blast
qed

theorem is_archived_iff_first_row_witness:
  "(\<exists>doc. snd (check_url_availability (json_answer 200 one_capture)
                 (no_arguments\<lparr>a_url := Some ''example.com''\<rparr>))
             = Inr \<lparr>content = JsonText doc, isError = False\<rparr>
          \<and> field_of doc ''is_archived'' = Some (JBool True))
   \<and> (\<exists>doc. snd (check_url_availability
                 (json_answer 200 (JArr [JArr [JStr ''timestamp'', JStr ''statuscode'']]))
                 (no_arguments\<lparr>a_url := Some ''example.com''\<rparr>))
             = Inr \<lparr>content = JsonText doc, isError = False\<rparr>
          \<and> field_of doc ''is_archived'' = Some (JBool False))"
proof -
  let ?args = "no_arguments\<lparr>a_url := Some ''example.com''\<rparr>"
  let ?r = "\<lambda>j. \<lparr>status_code = 200, status_error = ''status '' @ show_nat 200, body_text = [],
               json_body = Inr j\<rparr>"
  have a: "a_url ?args = Some ''example.com''" by simp
  have u: "json_answer 200 j rq = Answered (?r j)" for j rq
    by (simp add: json_answer_def)
  let ?rows1 = "[JArr [JStr ''timestamp'', JStr ''statuscode''],
                 JArr [JStr ''20230101120000'', JStr ''200'']]"
  let ?rows0 = "[JArr [JStr ''timestamp'', JStr ''statuscode'']]"
  have w1: "status_code (?r one_capture) = 200 \<longrightarrow> json_body (?r one_capture) = Inr (JArr ?rows1)"
    by (simp add: one_capture_def)
  have w0: "status_code (?r (JArr ?rows0)) = 200 \<longrightarrow>
            json_body (?r (JArr ?rows0)) = Inr (JArr ?rows0)"
    by simp
  have h1: "(status_code (?r one_capture) = 200 \<longrightarrow>
                (\<forall>row \<in> set (drop 1 ?rows1). \<exists>c cs. row = JArr (c # cs)))
             \<and> (status_code (?r one_capture) = 200 \<longrightarrow>
                  (\<exists>lrows. json_body (?r one_capture) = Inr (JArr lrows)
                     \<and> (\<forall>row \<in> set (drop 1 lrows). \<exists>c cs. row = JArr (c # cs))))"
    by (simp add: one_capture_def)
  have h0: "(status_code (?r (JArr ?rows0)) = 200 \<longrightarrow>
                (\<forall>row \<in> set (drop 1 ?rows0). \<exists>c cs. row = JArr (c # cs)))
             \<and> (status_code (?r (JArr ?rows0)) = 200 \<longrightarrow>
                  (\<exists>lrows. json_body (?r (JArr ?rows0)) = Inr (JArr lrows)
                     \<and> (\<forall>row \<in> set (drop 1 lrows). \<exists>c cs. row = JArr (c # cs))))"
    by simp
  note one = is_archived_iff_first_row
    [of ?args "''example.com''" "json_answer 200 one_capture" "?r one_capture"
        "?r one_capture" "?r one_capture" ?rows1, OF a u u u w1]
  note zero = is_archived_iff_first_row
    [of ?args "''example.com''" "json_answer 200 (JArr ?rows0)" "?r (JArr ?rows0)"
        "?r (JArr ?rows0)" "?r (JArr ?rows0)" ?rows0, OF a u u u w0]
  have "\<exists>doc. snd (check_url_availability (json_answer 200 one_capture) ?args)
             = Inr \<lparr>content = JsonText doc, isError = False\<rparr>
          \<and> field_of doc ''is_archived'' = Some (JBool True)"
    using one [THEN conjunct2, rule_format, OF h1] by simp
  moreover
  have "\<exists>doc. snd (check_url_availability (json_answer 200 (JArr ?rows0)) ?args)
             = Inr \<lparr>content = JsonText doc, isError = False\<rparr>
          \<and> field_of doc ''is_archived'' = Some (JBool False)"
    using zero [THEN conjunct2, rule_format, OF h0] by simp
  ultimately show ?thesis by (rule conjI)
qed

subsection \<open>The result of get_latest_snapshot\<close>

lemma fetch_json_answered:
  assumes "up rq = Answered r" and "200 \<le> status_code r" and "status_code r \<le> 299"
    and "json_body r = Inr j"
  shows "fetch_json up rq = Inr j"
  using assms by (simp add: fetch_json_def client_get_def raise_for_status_def response_json_def)







subsection \<open>The result of search_snapshots\<close>

lemma search_outcome:
  assumes "a_url args = Some url"
    and "up (cdx_request (search_params url args)) = Answered r"
    and "200 \<le> status_code r" and "status_code r \<le> 299"
    and "json_body r = Inr j"
  shows "search_snapshots up args
           = ([cdx_request (search_params url args)],
              map_sum id ok_result (search_result url j))"
  using assms fetch_json_answered [of up "cdx_request (search_params url args)" r j]
  by (simp add: search_snapshots_def Let_def)

lemma search_result_short:
  "length raw < 2 \<Longrightarrow>
   search_result url (JArr raw)
     = Inr (JObj [(''url'', JStr url), (''total_found'', JNum 0), (''snapshots'', JArr [])])"
  by (cases raw) (simp_all add: search_result_def)

lemma py_dict_hashable:
  "\<forall>k \<in> set ks. hashable k \<Longrightarrow> py_dict (zip ks vs) = Inr (zip ks vs)"
proof (induction ks arbitrary: vs)
  case Nil
  then show ?case by simp
next
  case (Cons k ks)
  then show ?case by (cases vs) simp_all
qed

lemma map_of_rev_distinct:
  assumes "distinct (map fst ps)"
  shows "map_of (rev ps) = map_of ps"
proof -
  have "distinct (map fst (rev ps))" using assms by (simp add: rev_map [symmetric])
  moreover have "set (rev ps) = set ps" by simp
  ultimately show ?thesis using assms map_of_inject_set by blast
qed

lemma entry_get_at:
  assumes "distinct names" and "j < length names" and "j < length row"
  shows "entry_get (zip (map JStr names) row) (names ! j) = row ! j"
proof -
  let ?n = "min (length names) (length row)"
  let ?ks = "take ?n (map JStr names)" and ?vs = "take ?n row"
  have z: "zip (map JStr names) row = zip ?ks ?vs"
    by (simp add: take_zip [symmetric])
  have "distinct (map JStr names)" using assms(1) by (simp add: distinct_map inj_on_def)
  then have d: "distinct ?ks" by (rule distinct_take)
  have l: "length ?ks = length ?vs" by simp
  have "distinct (map fst (zip ?ks ?vs))" using d l by simp
  then have "map_of (rev (zip ?ks ?vs)) = map_of (zip ?ks ?vs)" by (rule map_of_rev_distinct)
  moreover have "map_of (zip ?ks ?vs) (?ks ! j) = Some (?vs ! j)"
    using l d assms(2,3) by (intro map_of_zip_nth) simp_all
  moreover have "?ks ! j = JStr (names ! j)" and "?vs ! j = row ! j"
    using assms(2,3) by simp_all
  ultimately show ?thesis by (simp add: entry_get_def z)
qed

lemma snapshot_entry_names:
  "snapshot_entry (JArr (map JStr names)) (JArr row)
     = Inr (JObj
         [(''timestamp'', entry_get (zip (map JStr names) row) ''timestamp''),
          (''formatted_time'',
             format_timestamp_val (entry_get (zip (map JStr names) row) ''timestamp'')),
          (''snapshot_url'',
             JStr (WAYBACK_BASE_URL @ ''/''
                   @ py_str (entry_get (zip (map JStr names) row) ''timestamp'') @ ''/''
                   @ py_str (entry_get (zip (map JStr names) row) ''original''))),
          (''original_url'', entry_get (zip (map JStr names) row) ''original''),
          (''status_code'', entry_get (zip (map JStr names) row) ''statuscode''),
          (''mime_type'', entry_get (zip (map JStr names) row) ''mimetype''),
          (''size_bytes'', entry_get (zip (map JStr names) row) ''length'')])"
proof -
  have "py_dict (zip (map JStr names) row) = Inr (zip (map JStr names) row)"
    by (rule py_dict_hashable) auto
  then show ?thesis by (simp add: snapshot_entry_def Let_def)
qed

lemma snapshot_loop_all:
  "\<forall>row \<in> set rs. \<exists>s. snapshot_entry hdrs row = Inr s \<Longrightarrow>
   \<exists>snaps. snapshot_loop hdrs rs = Inr snaps \<and> length snaps = length rs
     \<and> (\<forall>i<length rs. snapshot_entry hdrs (rs ! i) = Inr (snaps ! i))"
proof (induction rs)
  case Nil
  then show ?case by simp
next
  case (Cons row rs)
  then obtain s where s: "snapshot_entry hdrs row = Inr s" by auto
  from Cons obtain snaps where
    l: "snapshot_loop hdrs rs = Inr snaps" "length snaps = length rs"
       "\<forall>i<length rs. snapshot_entry hdrs (rs ! i) = Inr (snaps ! i)" by auto
  have "snapshot_loop hdrs (row # rs) = Inr (s # snaps)" using s l(1) by simp
  moreover have "length (s # snaps) = length (row # rs)" using l(2) by simp
  moreover have "\<forall>i<length (row # rs). snapshot_entry hdrs ((row # rs) ! i) = Inr ((s # snaps) ! i)"
  proof (intro allI impI)
    fix i assume "i < length (row # rs)"
    then show "snapshot_entry hdrs ((row # rs) ! i) = Inr ((s # snaps) ! i)"
      using s l(3) by (cases i) simp_all
  qed
  ultimately show ?case by blast
qed

lemma search_result_rows:
  assumes "rows \<noteq> []"
  shows "\<exists>snaps. search_result url (JArr (JArr (map JStr names) # map JArr rows))
           = Inr (JObj [(''url'', JStr url), (''total_found'', JNum (int (length rows))),
                        (''snapshots'', JArr snaps)])
         \<and> length snaps = length rows
         \<and> (\<forall>i<length rows.
               snapshot_entry (JArr (map JStr names)) (JArr (rows ! i)) = Inr (snaps ! i))"
proof -
  let ?hdrs = "JArr (map JStr names)"
  have "\<forall>row \<in> set (map JArr rows). \<exists>s. snapshot_entry ?hdrs row = Inr s"
    by (auto simp: snapshot_entry_names)
  from snapshot_loop_all [OF this] obtain snaps where
    l: "snapshot_loop ?hdrs (map JArr rows) = Inr snaps" "length snaps = length rows"
       "\<forall>i<length rows. snapshot_entry ?hdrs (map JArr rows ! i) = Inr (snaps ! i)"
    by auto
  have "search_result url (JArr (?hdrs # map JArr rows))
           = Inr (JObj [(''url'', JStr url), (''total_found'', JNum (int (length rows))),
                        (''snapshots'', JArr snaps)])"
    using assms l(1,2) by (simp add: search_result_def)
  moreover have "\<forall>i<length rows. snapshot_entry ?hdrs (JArr (rows ! i)) = Inr (snaps ! i)"
    using l(3) by simp
  ultimately show ?thesis using l(2) by blast
qed

lemma snapshot_fields:
  assumes "snapshot_entry (JArr (map JStr names)) (JArr row) = Inr s"
    and "distinct names" and "j < length names" and "j < length row"
  shows "names ! j = ''timestamp'' \<longrightarrow>
           field_of s ''timestamp'' = Some (row ! j)
           \<and> field_of s ''formatted_time'' = Some (format_timestamp_val (row ! j))"
    and "names ! j = ''original'' \<longrightarrow> field_of s ''original_url'' = Some (row ! j)"
    and "names ! j = ''statuscode'' \<longrightarrow> field_of s ''status_code'' = Some (row ! j)"
    and "names ! j = ''mimetype'' \<longrightarrow> field_of s ''mime_type'' = Some (row ! j)"
    and "names ! j = ''length'' \<longrightarrow> field_of s ''size_bytes'' = Some (row ! j)"
  using assms(1) entry_get_at [OF assms(2-4)]
  unfolding snapshot_entry_names
  by (auto simp: field_of_def)

text \<open>
  Claim C7. Take a 2xx CDX response whose body is a JSON array. With fewer than two
  elements, search_snapshots returns a result that is not an error, with
  \<open>total_found\<close> 0 and an empty \<open>snapshots\<close> list. With a header row of names
  followed by \<open>n > 0\<close> data rows, \<open>total_found\<close> is \<open>n\<close>, there are \<open>n\<close>
  snapshot records in the order of the rows, and, the header names being distinct, the
  record of row \<open>i\<close> takes each field from the cell of that row at the position of the
  matching header name: \<open>timestamp\<close> (also formatted as \<open>formatted_time\<close>),
  \<open>original\<close> as \<open>original_url\<close>, \<open>statuscode\<close> as \<open>status_code\<close>,
  \<open>mimetype\<close> as \<open>mime_type\<close> and \<open>length\<close> as \<open>size_bytes\<close>.
\<close>

theorem search_zips_header_onto_rows:
  assumes "a_url args = Some url"
    and "up (cdx_request (search_params url args)) = Answered r"
    and "200 \<le> status_code r" and "status_code r \<le> 299"
    and "json_body r = Inr (JArr raw)"
  shows "(length raw < 2 \<longrightarrow>
            search_snapshots up args
              = ([cdx_request (search_params url args)],
                 Inr \<lparr>content = JsonText (JObj
                       [(''url'', JStr url), (''total_found'', JNum 0),
                        (''snapshots'', JArr [])]),
                      isError = False\<rparr>))
         \<and> (\<forall>names rows. raw = JArr (map JStr names) # map JArr rows \<and> rows \<noteq> [] \<longrightarrow>
              (\<exists>snaps.
                 search_snapshots up args
                   = ([cdx_request (search_params url args)],
                      Inr \<lparr>content = JsonText (JObj
                            [(''url'', JStr url),
                             (''total_found'', JNum (int (length rows))),
                             (''snapshots'', JArr snaps)]),
                           isError = False\<rparr>)
                 \<and> length snaps = length rows
                 \<and> (distinct names \<longrightarrow>
                    (\<forall>i j. i < length rows \<and> j < length names \<and> j < length (rows ! i) \<longrightarrow>
                       (names ! j = ''timestamp'' \<longrightarrow>
                          field_of (snaps ! i) ''timestamp'' = Some (rows ! i ! j)
                          \<and> field_of (snaps ! i) ''formatted_time''
                              = Some (format_timestamp_val (rows ! i ! j)))
                       \<and> (names ! j = ''original'' \<longrightarrow>
                            field_of (snaps ! i) ''original_url'' = Some (rows ! i ! j))
                       \<and> (names ! j = ''statuscode'' \<longrightarrow>
                            field_of (snaps ! i) ''status_code'' = Some (rows ! i ! j))
                       \<and> (names ! j = ''mimetype'' \<longrightarrow>
                            field_of (snaps ! i) ''mime_type'' = Some (rows ! i ! j))
                       \<and> (names ! j = ''length'' \<longrightarrow>
                            field_of (snaps ! i) ''size_bytes'' = Some (rows ! i ! j))))))"
proof (intro conjI allI impI)
  note out = search_outcome [of args url up r "JArr raw", OF assms]
  assume "length raw < 2"
  then show "search_snapshots up args
              = ([cdx_request (search_params url args)],
                 Inr \<lparr>content = JsonText (JObj
                       [(''url'', JStr url), (''total_found'', JNum 0),
                        (''snapshots'', JArr [])]),
                      isError = False\<rparr>)"
    by (simp add: out search_result_short ok_result_def)
next
  fix names rows
  note out = search_outcome [of args url up r "JArr raw", OF assms]
  assume "raw = JArr (map JStr names) # map JArr rows \<and> rows \<noteq> []"
  then have raw: "raw = JArr (map JStr names) # map JArr rows" and ne: "rows \<noteq> []"
    by simp_all
  from search_result_rows [OF ne, of url names] obtain snaps where
    res: "search_result url (JArr (JArr (map JStr names) # map JArr rows))
           = Inr (JObj [(''url'', JStr url), (''total_found'', JNum (int (length rows))),
                        (''snapshots'', JArr snaps)])"
    and len: "length snaps = length rows"
    and ent: "\<forall>i<length rows.
               snapshot_entry (JArr (map JStr names)) (JArr (rows ! i)) = Inr (snaps ! i)"
    by blast
  have 1: "search_snapshots up args
             = ([cdx_request (search_params url args)],
                Inr \<lparr>content = JsonText (JObj
                      [(''url'', JStr url),
                       (''total_found'', JNum (int (length rows))),
                       (''snapshots'', JArr snaps)]),
                     isError = False\<rparr>)"
    using res by (simp add: out raw ok_result_def)
  have 2: "distinct names \<longrightarrow>
        (\<forall>i j. i < length rows \<and> j < length names \<and> j < length (rows ! i) \<longrightarrow>
           (names ! j = ''timestamp'' \<longrightarrow>
              field_of (snaps ! i) ''timestamp'' = Some (rows ! i ! j)
              \<and> field_of (snaps ! i) ''formatted_time''
                  = Some (format_timestamp_val (rows ! i ! j)))
           \<and> (names ! j = ''original'' \<longrightarrow>
                field_of (snaps ! i) ''original_url'' = Some (rows ! i ! j))
           \<and> (names ! j = ''statuscode'' \<longrightarrow>
                field_of (snaps ! i) ''status_code'' = Some (rows ! i ! j))
           \<and> (names ! j = ''mimetype'' \<longrightarrow>
                field_of (snaps ! i) ''mime_type'' = Some (rows ! i ! j))
           \<and> (names ! j = ''length'' \<longrightarrow>
                field_of (snaps ! i) ''size_bytes'' = Some (rows ! i ! j)))"
  proof (intro impI allI)
    fix i j
    assume d: "distinct names"
      and "i < length rows \<and> j < length names \<and> j < length (rows ! i)"
    then have i: "i < length rows" and j: "j < length names" "j < length (rows ! i)"
      by simp_all
    from ent i have e: "snapshot_entry (JArr (map JStr names)) (JArr (rows ! i)) = Inr (snaps ! i)"
      by simp
    from snapshot_fields [OF e d j]
    show "(names ! j = ''timestamp'' \<longrightarrow>
              field_of (snaps ! i) ''timestamp'' = Some (rows ! i ! j)
              \<and> field_of (snaps ! i) ''formatted_time''
                  = Some (format_timestamp_val (rows ! i ! j)))
           \<and> (names ! j = ''original'' \<longrightarrow>
                field_of (snaps ! i) ''original_url'' = Some (rows ! i ! j))
           \<and> (names ! j = ''statuscode'' \<longrightarrow>
                field_of (snaps ! i) ''status_code'' = Some (rows ! i ! j))
           \<and> (names ! j = ''mimetype'' \<longrightarrow>
                field_of (snaps ! i) ''mime_type'' = Some (rows ! i ! j))
           \<and> (names ! j = ''length'' \<longrightarrow>
                field_of (snaps ! i) ''size_bytes'' = Some (rows ! i ! j))"
      by blast
  qed
  from 1 len 2
  show "\<exists>snaps.
          search_snapshots up args
            = ([cdx_request (search_params url args)],
               Inr \<lparr>content = JsonText (JObj
                     [(''url'', JStr url),
                      (''total_found'', JNum (int (length rows))),
                      (''snapshots'', JArr snaps)]),
                    isError = False\<rparr>)
          \<and> length snaps = length rows
          \<and> (distinct names \<longrightarrow>
             (\<forall>i j. i < length rows \<and> j < length names \<and> j < length (rows ! i) \<longrightarrow>
                (names ! j = ''timestamp'' \<longrightarrow>
                   field_of (snaps ! i) ''timestamp'' = Some (rows ! i ! j)
                   \<and> field_of (snaps ! i) ''formatted_time''
                       = Some (format_timestamp_val (rows ! i ! j)))
                \<and> (names ! j = ''original'' \<longrightarrow>
                     field_of (snaps ! i) ''original_url'' = Some (rows ! i ! j))
                \<and> (names ! j = ''statuscode'' \<longrightarrow>
                     field_of (snaps ! i) ''status_code'' = Some (rows ! i ! j))
                \<and> (names ! j = ''mimetype'' \<longrightarrow>
                     field_of (snaps ! i) ''mime_type'' = Some (rows ! i ! j))
                \<and> (names ! j = ''length'' \<longrightarrow>
                     field_of (snaps ! i) ''size_bytes'' = Some (rows ! i ! j))))"
    by blast
qed

theorem search_zips_header_onto_rows_witness:
  "search_snapshots (json_answer 200 (JArr [cdx_header]))
     (no_arguments\<lparr>a_url := Some ''example.com''\<rparr>)
   = ([cdx_request (search_params ''example.com''
                      (no_arguments\<lparr>a_url := Some ''example.com''\<rparr>))],
      Inr \<lparr>content = JsonText (JObj
            [(''url'', JStr ''example.com''), (''total_found'', JNum 0),
             (''snapshots'', JArr [])]),
           isError = False\<rparr>)
   \<and> (\<exists>snaps. search_snapshots (json_answer 200 two_captures)
                  (no_arguments\<lparr>a_url := Some ''example.com''\<rparr>)
                = ([cdx_request (search_params ''example.com''
                                   (no_arguments\<lparr>a_url := Some ''example.com''\<rparr>))],
                   Inr \<lparr>content = JsonText (JObj
                         [(''url'', JStr ''example.com''), (''total_found'', JNum 2),
                          (''snapshots'', JArr snaps)]),
                        isError = False\<rparr>)
          \<and> length snaps = 2
          \<and> field_of (snaps ! 0) ''formatted_time'' = Some (JStr ''2023-01-01 12:00:00 UTC'')
          \<and> field_of (snaps ! 1) ''status_code'' = Some (JStr ''301''))"
proof -
  let ?args = "no_arguments\<lparr>a_url := Some ''example.com''\<rparr>"
  let ?r = "\<lambda>j. \<lparr>status_code = 200, status_error = ''status '' @ show_nat 200, body_text = [],
               json_body = Inr j\<rparr>"
  let ?names = "[''timestamp'', ''original'', ''statuscode'', ''mimetype'', ''length'']"
  let ?rows = "[[JStr ''20230101120000'', JStr ''http://example.com/'', JStr ''200'',
                 JStr ''text/html'', JStr ''1234''],
                [JStr ''20230615080910'', JStr ''http://example.com/'', JStr ''301'',
                 JStr ''text/html'', JStr ''512'']]"
  let ?raw0 = "[cdx_header]"
  let ?raw2 = "JArr (map JStr ?names) # map JArr ?rows"
  have a: "a_url ?args = Some ''example.com''" by simp
  have u: "json_answer 200 j rq = Answered (?r j)" for j rq
    by (simp add: json_answer_def)
  have s1: "200 \<le> status_code (?r j)" and s2: "status_code (?r j) \<le> 299" for j by simp_all
  have b0: "json_body (?r (JArr ?raw0)) = Inr (JArr ?raw0)" by simp
  have b2: "json_body (?r two_captures) = Inr (JArr ?raw2)"
    by (simp add: two_captures_def cdx_header_def)
  note none = search_zips_header_onto_rows
    [of ?args "''example.com''" "json_answer 200 (JArr ?raw0)" "?r (JArr ?raw0)" ?raw0,
     OF a u s1 s2 b0]
  note two = search_zips_header_onto_rows
    [of ?args "''example.com''" "json_answer 200 two_captures" "?r two_captures" ?raw2,
     OF a u s1 s2 b2]
  have A: "search_snapshots (json_answer 200 (JArr [cdx_header])) ?args
   = ([cdx_request (search_params ''example.com'' ?args)],
      Inr \<lparr>content = JsonText (JObj
            [(''url'', JStr ''example.com''), (''total_found'', JNum 0),
             (''snapshots'', JArr [])]),
           isError = False\<rparr>)"
    using none [THEN conjunct1] by simp
  have h: "?raw2 = JArr (map JStr ?names) # map JArr ?rows \<and> ?rows \<noteq> []" by simp
  from two [THEN conjunct2, rule_format, OF h] obtain snaps where
    r: "search_snapshots (json_answer 200 two_captures) ?args
          = ([cdx_request (search_params ''example.com'' ?args)],
             Inr \<lparr>content = JsonText (JObj
                   [(''url'', JStr ''example.com''),
                    (''total_found'', JNum (int (length ?rows))),
                    (''snapshots'', JArr snaps)]),
                  isError = False\<rparr>)"
    and l: "length snaps = length ?rows"
    and z: "distinct ?names \<longrightarrow>
       (\<forall>i j. i < length ?rows \<and> j < length ?names \<and> j < length (?rows ! i) \<longrightarrow>
           (?names ! j = ''timestamp'' \<longrightarrow>
              field_of (snaps ! i) ''timestamp'' = Some (?rows ! i ! j)
              \<and> field_of (snaps ! i) ''formatted_time''
                  = Some (format_timestamp_val (?rows ! i ! j)))
           \<and> (?names ! j = ''original'' \<longrightarrow>
                field_of (snaps ! i) ''original_url'' = Some (?rows ! i ! j))
           \<and> (?names ! j = ''statuscode'' \<longrightarrow>
                field_of (snaps ! i) ''status_code'' = Some (?rows ! i ! j))
           \<and> (?names ! j = ''mimetype'' \<longrightarrow>
                field_of (snaps ! i) ''mime_type'' = Some (?rows ! i ! j))
           \<and> (?names ! j = ''length'' \<longrightarrow>
                field_of (snaps ! i) ''size_bytes'' = Some (?rows ! i ! j)))"
    by blast
  have d: "distinct ?names" by simp
  from z d have "field_of (snaps ! 0) ''formatted_time''
                   = Some (format_timestamp_val (?rows ! 0 ! 0))"
    using z [rule_format, OF d, of 0 0] by simp
  then have t: "field_of (snaps ! 0) ''formatted_time'' = Some (JStr ''2023-01-01 12:00:00 UTC'')"
    by (simp add: format_timestamp_example)
  have c: "field_of (snaps ! 1) ''status_code'' = Some (JStr ''301'')"
    using z [rule_format, OF d, of 1 2] by simp
  from r l t c have "\<exists>snaps. search_snapshots (json_answer 200 two_captures) ?args
                = ([cdx_request (search_params ''example.com'' ?args)],
                   Inr \<lparr>content = JsonText (JObj
                         [(''url'', JStr ''example.com''), (''total_found'', JNum 2),
                          (''snapshots'', JArr snaps)]),
                        isError = False\<rparr>)
          \<and> length snaps = 2
          \<and> field_of (snaps ! 0) ''formatted_time'' = Some (JStr ''2023-01-01 12:00:00 UTC'')
          \<and> field_of (snaps ! 1) ''status_code'' = Some (JStr ''301'')"
    by (intro exI [of _ snaps]) simp
  with A show ?thesis by (rule conjI)
qed

end
